theory Spec2Isabelle
  imports Main "HOL-Library.Multiset"
begin

section \<open>JSON documents and Python dictionaries\<close>

text \<open>
  The scripts exchange data as JSON: the manifest, every line of a session log.
  \<^verbatim>\<open>json.load\<close> yields \<^verbatim>\<open>None\<close>, booleans, integers, strings, lists and
  dictionaries. Numbers with a fraction are left out of the model. A Python dictionary
  keeps its keys in insertion order, so an object is an association list; the lists
  that \<^verbatim>\<open>json.load\<close> builds have pairwise different keys.
\<close>

datatype json =
    JNull
  | JBool bool
  | JInt int
  | JStr string
  | JArr "json list"
  | JObj "(string \<times> json) list"

type_synonym dict = "(string \<times> json) list"

text \<open>\<^verbatim>\<open>d.get(k)\<close>: the value stored under \<open>k\<close>, or \<^verbatim>\<open>None\<close>.\<close>

definition dict_get :: "(string \<times> 'v) list \<Rightarrow> string \<Rightarrow> 'v option" where
  "dict_get d k = map_of d k"

text \<open>\<^verbatim>\<open>d.get(k, default)\<close>.\<close>

definition dict_get_default :: "(string \<times> 'v) list \<Rightarrow> string \<Rightarrow> 'v \<Rightarrow> 'v" where
  "dict_get_default d k dflt = (case map_of d k of None \<Rightarrow> dflt | Some v \<Rightarrow> v)"

text \<open>
  \<^verbatim>\<open>d[k] = v\<close>: an existing key keeps its place and takes the new value, a new key is
  appended.
\<close>

fun dict_set :: "(string \<times> 'v) list \<Rightarrow> string \<Rightarrow> 'v \<Rightarrow> (string \<times> 'v) list" where
  "dict_set [] k v = [(k, v)]"
| "dict_set ((k', v') # d) k v =
     (if k' = k then (k', v) # d else (k', v') # dict_set d k v)"

section \<open>Strings\<close>

text \<open>
  \<^verbatim>\<open>str(n)\<close> for an integer, as an f-string prints it: decimal digits, a minus sign
  for a negative number.
\<close>

definition digit_char :: "nat \<Rightarrow> char" where
  "digit_char d = ''0123456789'' ! d"

fun str_nat :: "nat \<Rightarrow> string" where
  "str_nat n = (if n < 10 then [digit_char n] else str_nat (n div 10) @ [digit_char (n mod 10)])"

declare str_nat.simps [simp del]

definition str_int :: "int \<Rightarrow> string" where
  "str_int i = (if i < 0 then CHR ''-'' # str_nat (nat (- i)) else str_nat (nat i))"

text \<open>
  Substring tests and replacements on strings. \<open>str_contains n s\<close> is Python's
  \<^verbatim>\<open>n in s\<close>, \<open>endswith s e\<close> is \<^verbatim>\<open>s.endswith(e)\<close>, \<open>str_replace_char c r s\<close> is
  \<^verbatim>\<open>s.replace(c, r)\<close> for a one-character \<open>c\<close>, and \<open>lower\<close> is \<^verbatim>\<open>s.lower()\<close> on
  ASCII text (the letters A to Z; every other character is kept).
\<close>

fun startswith :: "string \<Rightarrow> string \<Rightarrow> bool" where
  "startswith s [] = True"
| "startswith [] (p # ps) = False"
| "startswith (c # cs) (p # ps) = (c = p \<and> startswith cs ps)"

fun str_contains :: "string \<Rightarrow> string \<Rightarrow> bool" where
  "str_contains n [] = (n = [])"
| "str_contains n (c # cs) = (startswith (c # cs) n \<or> str_contains n cs)"

definition endswith :: "string \<Rightarrow> string \<Rightarrow> bool" where
  "endswith s e = startswith (rev s) (rev e)"

definition str_replace_char :: "char \<Rightarrow> string \<Rightarrow> string \<Rightarrow> string" where
  "str_replace_char c r s = concat (map (\<lambda>x. if x = c then r else [x]) s)"

definition lower_char :: "char \<Rightarrow> char" where
  "lower_char c =
     (case map_of (zip ''ABCDEFGHIJKLMNOPQRSTUVWXYZ'' ''abcdefghijklmnopqrstuvwxyz'') c of
        None \<Rightarrow> c
      | Some l \<Rightarrow> l)"

definition lower :: "string \<Rightarrow> string" where
  "lower s = map lower_char s"

section \<open>The version ledger (submit.py)\<close>

text \<open>
  \<^verbatim>\<open>
  def get_upload_path_from_version(sprint_folder, task_id, version):
      if version == 0:
          return f"{sprint_folder}/{task_id}"
      else:
          return f"{sprint_folder}/{task_id}_v{version}"
  \<close>
\<close>

definition get_upload_path_from_version :: "string \<Rightarrow> string \<Rightarrow> int \<Rightarrow> string" where
  "get_upload_path_from_version sprint_folder task_id version =
     (if version = 0 then sprint_folder @ ''/'' @ task_id
      else sprint_folder @ ''/'' @ task_id @ ''_v'' @ str_int version)"

text \<open>
  The starting version, from \<^verbatim>\<open>main\<close>:
  \<^verbatim>\<open>
  last_version = manifest.get("last_submission_version")
  if last_version is None:
      attempt_version = 0
  else:
      attempt_version = last_version + 1
  \<close>
  A missing key and a JSON \<^verbatim>\<open>null\<close> both read as \<^verbatim>\<open>None\<close>. Python adds 1 to an
  integer and to a boolean (\<^verbatim>\<open>True + 1 = 2\<close>); for a string, a list or a dictionary
  the addition raises \<^verbatim>\<open>TypeError\<close>, which \<^verbatim>\<open>main\<close> reports as an unexpected error.
\<close>

datatype py_error = TypeError | AttributeError

definition initial_attempt_version :: "dict \<Rightarrow> py_error + int" where
  "initial_attempt_version manifest =
     (case dict_get manifest ''last_submission_version'' of
        None \<Rightarrow> Inr 0
      | Some JNull \<Rightarrow> Inr 0
      | Some (JInt last_version) \<Rightarrow> Inr (last_version + 1)
      | Some (JBool b) \<Rightarrow> Inr ((if b then 1 else 0) + 1)
      | Some _ \<Rightarrow> Inl TypeError)"

text \<open>
  \<^verbatim>\<open>
  def update_manifest_version(manifest_path, new_version):
      try:
          with open(manifest_path, 'r') as f:
              manifest = json.load(f)
          manifest["last_submission_version"] = new_version
          with open(manifest_path, 'w') as f:
              json.dump(manifest, f, indent=2)
          return True
      except Exception as e:
          print_warning(f"Failed to update manifest version: {e}")
          return False
  \<close>
  The state of \<^verbatim>\<open>manifest.json\<close> on disk is the document it holds, or \<open>None\<close> when
  the file is missing or is not JSON. The function returns its flag and the new state of
  the file. Item assignment with a string key works on a dictionary only: on any other
  document it raises before the file is opened for writing, so the file stays as it was.
\<close>

definition update_manifest_version :: "json option \<Rightarrow> int \<Rightarrow> bool \<times> json option" where
  "update_manifest_version manifest_file new_version =
     (case manifest_file of
        Some (JObj manifest) \<Rightarrow>
          (True, Some (JObj (dict_set manifest ''last_submission_version'' (JInt new_version))))
      | _ \<Rightarrow> (False, manifest_file))"

section \<open>Artifact transfer (submit.py)\<close>

text \<open>
  What the remote store and the network do is not part of the script. One try of the
  upload (opening the file, creating the uploader, \<^verbatim>\<open>uploader.upload()\<close>) ends in one
  of three ways: it returns, it raises \<^verbatim>\<open>ConnectionError\<close>, \<^verbatim>\<open>OSError\<close> or
  \<^verbatim>\<open>TimeoutError\<close>, or it raises another exception; the string is \<^verbatim>\<open>str(e)\<close>.
  A transfer is what happens to one file at one remote path: \<open>prepare_error\<close> is the
  message of an exception raised before the retry loop (by \<^verbatim>\<open>stat()\<close> or the client's
  constructor), \<open>tries\<close> the outcome of each try by its index.
\<close>

datatype try_outcome = Uploaded | NetworkError string | OtherError string

record transfer =
  prepare_error :: "string option"
  tries :: "nat \<Rightarrow> try_outcome"

definition max_upload_retries :: nat where
  "max_upload_retries = 3"

definition network_keywords :: "string list" where
  "network_keywords = [''ssl'', ''connection'', ''timeout'', ''network'', ''refused'', ''reset'']"

text \<open>
  The retry loop of \<^verbatim>\<open>upload_file_to_supabase\<close>:
  \<^verbatim>\<open>
  for retry_attempt in range(max_upload_retries):
      try:
          ... uploader.upload()
          return (True, None)
      except (ConnectionError, OSError, TimeoutError) as network_error:
          last_network_error = network_error
          if retry_attempt < max_upload_retries - 1:
              ... time.sleep(backoff_delay); continue
          else:
              return (False, "other")
      except Exception as upload_error:
          error_msg = str(upload_error).lower()
          if any(keyword in error_msg for keyword in ['ssl', ...]):
              last_network_error = upload_error
              if retry_attempt < max_upload_retries - 1:
                  ... continue
              else:
                  return (False, "other")
          else:
              raise
  if last_network_error:
      return (False, "other")
  \<close>
  \<open>Inl msg\<close> is an exception that leaves the loop for the outer handler, \<open>Inr r\<close> a
  return; \<open>Inr None\<close> is the function running off its end, which returns \<^verbatim>\<open>None\<close>.
\<close>

type_synonym upload_return = "(bool \<times> string option) option"

function upload_retry_loop ::
  "(nat \<Rightarrow> try_outcome) \<Rightarrow> nat \<Rightarrow> string option \<Rightarrow> string + upload_return" where
  "upload_retry_loop tr retry_attempt last_network_error =
     (if retry_attempt < max_upload_retries then
        (case tr retry_attempt of
           Uploaded \<Rightarrow> Inr (Some (True, None))
         | NetworkError network_error \<Rightarrow>
             (if retry_attempt < max_upload_retries - 1
              then upload_retry_loop tr (retry_attempt + 1) (Some network_error)
              else Inr (Some (False, Some ''other'')))
         | OtherError upload_error \<Rightarrow>
             (if list_ex (\<lambda>keyword. str_contains keyword (lower upload_error)) network_keywords
              then (if retry_attempt < max_upload_retries - 1
                    then upload_retry_loop tr (retry_attempt + 1) (Some upload_error)
                    else Inr (Some (False, Some ''other'')))
              else Inl upload_error))
      else (case last_network_error of
              Some e \<Rightarrow> Inr (Some (False, Some ''other''))
            | None \<Rightarrow> Inr None))"
  by pat_completeness auto
termination
  by (relation "measure (\<lambda>(tr, retry_attempt, last). max_upload_retries - retry_attempt)") auto

declare upload_retry_loop.simps [simp del]

text \<open>
  The outer handler of \<^verbatim>\<open>upload_file_to_supabase\<close> turns the exception into an error
  code:
  \<^verbatim>\<open>
  except Exception as e:
      error_msg = str(e)
      if "403" in error_msg or "forbidden" in error_msg.lower():
          return (False, "403")
      elif "409" in error_msg or "conflict" in error_msg.lower():
          return (False, "409")
      else:
          return (False, "other")
  \<close>
\<close>

definition classify_error :: "string \<Rightarrow> upload_return" where
  "classify_error error_msg =
     (if str_contains ''403'' error_msg \<or> str_contains ''forbidden'' (lower error_msg)
      then Some (False, Some ''403'')
      else if str_contains ''409'' error_msg \<or> str_contains ''conflict'' (lower error_msg)
      then Some (False, Some ''409'')
      else Some (False, Some ''other''))"

definition upload_file_to_supabase :: "transfer \<Rightarrow> upload_return" where
  "upload_file_to_supabase t =
     (case (case prepare_error t of
              Some e \<Rightarrow> Inl e
            | None \<Rightarrow> upload_retry_loop (tries t) 0 None) of
        Inr r \<Rightarrow> r
      | Inl error_msg \<Rightarrow> classify_error error_msg)"

section \<open>The upload scheduler (submit.py)\<close>

text \<open>
  The environment of a submission: \<open>remote\<close> says what the transfer of a local file to
  a remote path does, \<open>other_files\<close> what the \<open>k\<close>-th call of
  \<^verbatim>\<open>get_file_list_for_upload\<close> finds beside the manifest (logs, the snapshot archive,
  the model configurations). The list it returns always starts with
  \<^verbatim>\<open>manifest.json\<close>.
\<close>

record env =
  remote :: "string \<Rightarrow> string \<Rightarrow> transfer"
  other_files :: "nat \<Rightarrow> string list"

definition get_file_list_for_upload :: "env \<Rightarrow> nat \<Rightarrow> string list" where
  "get_file_list_for_upload e k = ''manifest.json'' # other_files e k"

text \<open>
  \<^verbatim>\<open>upload_experiment_data(task_id, user_folder, upload_files, manifest)\<close> submits one
  task per file to a pool of five workers and handles the results as they complete:
  \<^verbatim>\<open>
  success, error_code = future.result()
  if success:
      uploaded_count += 1
  else:
      failed_files.append(local_file)
      if error_code in ["403", "409"]:
          conflict_error_codes.add(error_code)
  ...
  except Exception as e:
      failed_files.append(local_file)
  ...
  had_conflict_errors = len(conflict_error_codes) > 0
  return (len(failed_files) == 0, had_conflict_errors, uploaded_count)
  \<close>
  A task that returned \<^verbatim>\<open>None\<close> cannot be unpacked; the handler counts it as failed.
  The model handles the results in the order of \<open>upload_files\<close>; the value returned
  does not depend on the order (lemma \<open>upload_experiment_data_order\<close>). The parameters
  \<^verbatim>\<open>user_folder\<close> and \<^verbatim>\<open>manifest\<close> are not used by the function.
\<close>

record tally =
  uploaded_count :: nat
  failed_files :: "string list"
  conflict_error_codes :: "string list"

definition record_result :: "string \<times> upload_return \<Rightarrow> tally \<Rightarrow> tally" where
  "record_result fr t =
     (case snd fr of
        Some (True, error_code) \<Rightarrow> t\<lparr>uploaded_count := uploaded_count t + 1\<rparr>
      | Some (False, error_code) \<Rightarrow>
          (if error_code \<in> set [Some ''403'', Some ''409'']
           then t\<lparr>failed_files := failed_files t @ [fst fr],
                  conflict_error_codes := List.insert (the error_code) (conflict_error_codes t)\<rparr>
           else t\<lparr>failed_files := failed_files t @ [fst fr]\<rparr>)
      | None \<Rightarrow> t\<lparr>failed_files := failed_files t @ [fst fr]\<rparr>)"

definition remote_file_path :: "string \<Rightarrow> string \<Rightarrow> string" where
  "remote_file_path task_id local_file =
     task_id @ ''/'' @ str_replace_char (CHR 0x5C) ''/'' local_file"

definition task_results :: "env \<Rightarrow> string \<Rightarrow> string list \<Rightarrow> (string \<times> upload_return) list" where
  "task_results e task_id upload_files =
     map (\<lambda>local_file.
            (local_file,
             upload_file_to_supabase (remote e local_file (remote_file_path task_id local_file))))
       upload_files"

definition upload_experiment_data :: "env \<Rightarrow> string \<Rightarrow> string list \<Rightarrow> bool \<times> bool \<times> nat" where
  "upload_experiment_data e task_id upload_files =
     (let t = fold record_result (task_results e task_id upload_files)
                \<lparr>uploaded_count = 0, failed_files = [], conflict_error_codes = []\<rparr>
      in (length (failed_files t) = 0, length (conflict_error_codes t) > 0, uploaded_count t))"

text \<open>
  The retry loop of \<^verbatim>\<open>main\<close>:
  \<^verbatim>\<open>
  max_attempts = 5
  for attempt in range(max_attempts):
      upload_path = get_upload_path_from_version(sprint_folder, task_id, attempt_version)
      success, had_conflict_errors, uploaded_count =
          upload_experiment_data(upload_path, upload_path, upload_files, manifest)
      if uploaded_count > 0:
          if not update_manifest_version("manifest.json", attempt_version): ...warning
          final_version = attempt_version
      if success:
          upload_successful = True
          final_upload_path = upload_path
          break
      elif had_conflict_errors and attempt < max_attempts - 1:
          attempt_version += 1
          upload_files = get_file_list_for_upload()
      else:
          if had_conflict_errors:
              print_error("Upload failed: Files already exist and max attempts (5) reached")
          else:
              print_error("Upload failed with non-conflict errors")
          break
  if not upload_successful:
      print_error("Upload failed after all attempts")
  \<close>
  \<^verbatim>\<open>print_error\<close> ends the process. The result of the model is how the loop ended, the
  last version saved, the manifest file as the loop left it, and a log with one entry
  for every attempt made, in order.
\<close>

datatype outcome =
    Upload_successful string
  | Failed_max_attempts
  | Failed_non_conflict
  | Failed_after_all_attempts

record attempt_entry =
  at_version :: int
  at_upload_path :: string
  at_files :: "string list"
  at_success :: bool
  at_had_conflict_errors :: bool
  at_uploaded_count :: nat
  at_manifest_file :: "json option"

record submission =
  result :: outcome
  final_version :: "int option"
  manifest_file :: "json option"
  attempts :: "attempt_entry list"

definition max_attempts :: nat where
  "max_attempts = 5"

function upload_attempts ::
  "env \<Rightarrow> string \<Rightarrow> string \<Rightarrow> nat \<Rightarrow> int \<Rightarrow> nat \<Rightarrow> string list \<Rightarrow> json option \<Rightarrow> int option
     \<Rightarrow> submission" where
  "upload_attempts e sprint_folder task_id attempt attempt_version listings upload_files mf fv =
     (if attempt < max_attempts then
        (let upload_path = get_upload_path_from_version sprint_folder task_id attempt_version;
             r = upload_experiment_data e upload_path upload_files;
             success = fst r;
             had_conflict_errors = fst (snd r);
             uploaded_count = snd (snd r);
             mf' = (if uploaded_count > 0
                    then snd (update_manifest_version mf attempt_version) else mf);
             fv' = (if uploaded_count > 0 then Some attempt_version else fv);
             entry = \<lparr>at_version = attempt_version, at_upload_path = upload_path,
                      at_files = upload_files, at_success = success,
                      at_had_conflict_errors = had_conflict_errors,
                      at_uploaded_count = uploaded_count, at_manifest_file = mf'\<rparr>
         in if success then
              \<lparr>result = Upload_successful upload_path, final_version = fv',
               manifest_file = mf', attempts = [entry]\<rparr>
            else if had_conflict_errors \<and> attempt < max_attempts - 1 then
              (let rest = upload_attempts e sprint_folder task_id (attempt + 1)
                            (attempt_version + 1) (listings + 1)
                            (get_file_list_for_upload e (listings + 1)) mf' fv'
               in rest\<lparr>attempts := entry # attempts rest\<rparr>)
            else
              \<lparr>result = (if had_conflict_errors then Failed_max_attempts
                         else Failed_non_conflict),
               final_version = fv', manifest_file = mf', attempts = [entry]\<rparr>)
      else
        \<lparr>result = Failed_after_all_attempts, final_version = fv, manifest_file = mf,
         attempts = []\<rparr>)"
  by pat_completeness auto
termination
  by (relation "measure (\<lambda>(e, sf, tid, attempt, rest). max_attempts - attempt)") auto

declare upload_attempts.simps [simp del]

text \<open>
  The part of \<^verbatim>\<open>main\<close> from the choice of the starting version to the end of the
  loop. \<open>manifest\<close> is the dictionary \<^verbatim>\<open>read_manifest\<close> returned, \<open>mf\<close> the manifest
  file on disk; the first file list is the one of call 0.
\<close>

definition submit_uploads :: "env \<Rightarrow> string \<Rightarrow> string \<Rightarrow> dict \<Rightarrow> json option \<Rightarrow> py_error + submission" where
  "submit_uploads e sprint_folder task_id manifest mf =
     (case initial_attempt_version manifest of
        Inl err \<Rightarrow> Inl err
      | Inr attempt_version \<Rightarrow>
          Inr (upload_attempts e sprint_folder task_id 0 attempt_version 0
                 (get_file_list_for_upload e 0) mf None))"

text \<open>Reading one field of the manifest file, as \<^verbatim>\<open>read_manifest().get(k)\<close> does.\<close>

definition manifest_field :: "json option \<Rightarrow> string \<Rightarrow> json option" where
  "manifest_field mf k = (case mf of Some (JObj m) \<Rightarrow> dict_get m k | _ \<Rightarrow> None)"

section \<open>Validation before the upload (submit.py)\<close>

text \<open>
  The experiment directory, as far as \<^verbatim>\<open>validate_experiment_files\<close> looks at it:
  what kind of entry a relative path names, if any, and the names that
  \<^verbatim>\<open>glob("session_*.jsonl")\<close> finds in \<^verbatim>\<open>logs/model_a\<close> and \<^verbatim>\<open>logs/model_b\<close>.
\<close>

datatype entry = File | Dir | Other

record experiment_dir =
  entries :: "string \<Rightarrow> entry option"
  session_logs :: "string \<Rightarrow> string list"

definition is_file :: "experiment_dir \<Rightarrow> string \<Rightarrow> bool" where
  "is_file d p = (entries d p = Some File)"

definition is_dir :: "experiment_dir \<Rightarrow> string \<Rightarrow> bool" where
  "is_dir d p = (entries d p = Some Dir)"

definition path_exists :: "experiment_dir \<Rightarrow> string \<Rightarrow> bool" where
  "path_exists d p = (entries d p \<noteq> None)"

definition required_files :: "string list" where
  "required_files =
     [''manifest.json'', ''model_a/.claude/settings.local.json'',
      ''model_b/.claude/settings.local.json'']"

definition required_dirs :: "string list" where
  "required_dirs = [''model_a'', ''model_b'', ''logs'', ''snapshots'']"

text \<open>
  \<^verbatim>\<open>print_error\<close> prints its message and ends the process. The errors of the
  validation, by the message they print: "manifest.json not found in current directory",
  "snapshots folder not found in current directory", "No mandatory session log file
  found in logs/<lane>/", "Found <n> mandatory session files in logs/<lane>/, expected
  exactly 1", and "Validation failed. Missing required items:" followed by one line for
  each item of the list.
\<close>

datatype validation_error =
    Manifest_not_found
  | Snapshots_not_found
  | No_mandatory_session_log string
  | Several_mandatory_session_logs nat string
  | Missing_required_items "string list"

text \<open>
  \<^verbatim>\<open>
  missing_files = []
  for file_path in required_files:
      if not Path(file_path).is_file():
          missing_files.append(file_path)
  \<close>
  and the same loop over \<^verbatim>\<open>required_dirs\<close> with \<^verbatim>\<open>is_dir\<close>.
\<close>

fun collect_missing :: "(string \<Rightarrow> bool) \<Rightarrow> string list \<Rightarrow> string list \<Rightarrow> string list" where
  "collect_missing present [] missing = missing"
| "collect_missing present (p # ps) missing =
     collect_missing present ps (if \<not> present p then missing @ [p] else missing)"

text \<open>
  The check of one lane's logs. Only the two calls of \<^verbatim>\<open>print_error\<close> matter here;
  the other branches print warnings and go on.
  \<^verbatim>\<open>
  model_a_all_logs = list(model_a_dir.glob("session_*.jsonl"))
  model_a_mandatory = [f for f in model_a_all_logs if not f.name.endswith("_raw.jsonl")]
  if not model_a_mandatory:
      print_error("No mandatory session log file found in logs/model_a/ ...")
  elif len(model_a_mandatory) > 1:
      print_error(f"Found {len(model_a_mandatory)} mandatory session files ...")
  else:
      ...
  \<close>
\<close>

definition check_lane_logs :: "experiment_dir \<Rightarrow> string \<Rightarrow> validation_error + unit" where
  "check_lane_logs d lane =
     (let all_logs = session_logs d lane;
          mandatory = filter (\<lambda>name. \<not> endswith name ''_raw.jsonl'') all_logs
      in if mandatory = [] then Inl (No_mandatory_session_log lane)
         else if length mandatory > 1
         then Inl (Several_mandatory_session_logs (length mandatory) lane)
         else Inr ())"

text \<open>
  \<^verbatim>\<open>validate_experiment_files\<close>, in the order of the source: the two guards, the two
  lists of missing items, the checks of the logs when \<^verbatim>\<open>logs\<close> exists, the warnings
  about snapshots (nothing in the model) and the report of the missing items.
\<close>

definition validate_experiment_files :: "experiment_dir \<Rightarrow> validation_error + bool" where
  "validate_experiment_files d =
     (if \<not> is_file d ''manifest.json'' then Inl Manifest_not_found
      else if \<not> is_dir d ''snapshots'' then Inl Snapshots_not_found
      else
        (let missing_files = collect_missing (is_file d) required_files [];
             missing_dirs = collect_missing (is_dir d) required_dirs [];
             logs = (if path_exists d ''logs''
                     then (case check_lane_logs d ''model_a'' of
                             Inl err \<Rightarrow> Inl err
                           | Inr u \<Rightarrow> check_lane_logs d ''model_b'')
                     else Inr ())
         in case logs of
              Inl err \<Rightarrow> Inl err
            | Inr u \<Rightarrow>
                (let all_missing = missing_files @ missing_dirs
                 in if all_missing \<noteq> [] then Inl (Missing_required_items all_missing)
                    else Inr True)))"

section \<open>Timestamps (merge-sessions.py)\<close>

text \<open>
  A Python \<^verbatim>\<open>datetime\<close> is naive (no time zone) or aware. The number is the count of
  microseconds since 0001-01-01T00:00:00, of the local fields for a naive value and of
  the instant in UTC for an aware one. Two aware values compare by their instants, two
  naive values by their fields; \<open>datetime_le\<close> is \<open>None\<close> where Python raises
  \<^verbatim>\<open>TypeError\<close>: "can't compare offset-naive and offset-aware datetimes".
\<close>

datatype datetime = Naive int | Aware int

fun is_aware :: "datetime \<Rightarrow> bool" where
  "is_aware (Aware t) = True"
| "is_aware (Naive t) = False"

fun ordinal :: "datetime \<Rightarrow> int" where
  "ordinal (Aware t) = t"
| "ordinal (Naive t) = t"

fun datetime_le :: "datetime \<Rightarrow> datetime \<Rightarrow> bool option" where
  "datetime_le (Aware a) (Aware b) = Some (a \<le> b)"
| "datetime_le (Naive a) (Naive b) = Some (a \<le> b)"
| "datetime_le (Aware a) (Naive b) = None"
| "datetime_le (Naive a) (Aware b) = None"

text \<open>\<^verbatim>\<open>datetime.min.replace(tzinfo=timezone.utc)\<close>\<close>

definition datetime_min_utc :: datetime where
  "datetime_min_utc = Aware 0"

text \<open>
  \<^verbatim>\<open>
  def parse_timestamp(ts: str) -> datetime:
      if not ts:
          return datetime.min.replace(tzinfo=timezone.utc)
      try:
          ts = ts.replace('Z', '+00:00')
          return datetime.fromisoformat(ts)
      except:
          return datetime.min.replace(tzinfo=timezone.utc)
  \<close>
  The argument is what \<^verbatim>\<open>event.get('timestamp', '')\<close> gave: any JSON value. A value
  that is not a string is falsy, or has no method \<^verbatim>\<open>replace\<close>; either way the result
  is the minimum. \<^verbatim>\<open>datetime.fromisoformat\<close> belongs to the Python library, and the
  strings it accepts depend on the version of Python: it is the parameter \<open>fromiso\<close>,
  \<open>None\<close> where it raises.
\<close>

type_synonym isoparser = "string \<Rightarrow> datetime option"

definition parse_timestamp :: "isoparser \<Rightarrow> json \<Rightarrow> datetime" where
  "parse_timestamp fromiso ts =
     (case ts of
        JStr s \<Rightarrow>
          (if s = [] then datetime_min_utc
           else (case fromiso (str_replace_char (CHR ''Z'') ''+00:00'' s) of
                   Some d \<Rightarrow> d
                 | None \<Rightarrow> datetime_min_utc))
      | _ \<Rightarrow> datetime_min_utc)"

text \<open>
  \<^verbatim>\<open>xs.sort(key=k)\<close> for keys that are datetimes. The sort of Python is stable. It
  raises \<^verbatim>\<open>TypeError\<close> when it compares a naive key with an aware one, and a sort by
  comparisons cannot order a list with keys of both kinds without such a comparison.
\<close>

definition sort_by_datetime :: "('a \<Rightarrow> datetime) \<Rightarrow> 'a list \<Rightarrow> py_error + 'a list" where
  "sort_by_datetime k xs =
     (if list_ex (\<lambda>x. is_aware (k x)) xs \<and> list_ex (\<lambda>x. \<not> is_aware (k x)) xs
      then Inl TypeError
      else Inr (sort_key (\<lambda>x. ordinal (k x)) xs))"

section \<open>Reading and classifying session files (merge-sessions.py)\<close>

text \<open>
  A session file is a list of lines. The JSON parser is not part of the script: a line,
  stripped of white space, is empty, or is not JSON, or is the document it parses to.
\<close>

datatype line = Blank | Malformed | Parsed json

type_synonym session_file = "line list"

text \<open>
  \<^verbatim>\<open>
  def get_start_time(filepath: Path) -> datetime:
      try:
          with open(filepath, 'r', encoding='utf-8') as f:
              for line in f:
                  event = json.loads(line.strip())
                  if event.get('type') == 'session_start':
                      return parse_timestamp(event.get('timestamp', ''))
      except:
          pass
      return datetime.min.replace(tzinfo=timezone.utc)
  \<close>
  The \<^verbatim>\<open>try\<close> is around the loop: an empty line, a line that is not JSON and a
  document that is not a dictionary (it has no \<^verbatim>\<open>get\<close>) each end the search.
\<close>

fun get_start_time :: "isoparser \<Rightarrow> session_file \<Rightarrow> datetime" where
  "get_start_time fromiso [] = datetime_min_utc"
| "get_start_time fromiso (Parsed (JObj event) # f) =
     (if dict_get event ''type'' = Some (JStr ''session_start'')
      then parse_timestamp fromiso (dict_get_default event ''timestamp'' (JStr []))
      else get_start_time fromiso f)"
| "get_start_time fromiso (l # f) = datetime_min_utc"

text \<open>
  \<^verbatim>\<open>find_session_files\<close>, for the processed files: they are sorted by their start
  time. The argument is the list of processed files in the order in which \<^verbatim>\<open>glob\<close>
  found them. (The raw files, which the function matches to the processed ones by
  name, are not modelled.)
\<close>

definition find_session_files :: "isoparser \<Rightarrow> session_file list \<Rightarrow> py_error + session_file list" where
  "find_session_files fromiso processed_files = sort_by_datetime (get_start_time fromiso) processed_files"

text \<open>
  \<^verbatim>\<open>read_session_events\<close>: the documents of the lines that parse; empty lines and
  lines that are not JSON are skipped.
\<close>

fun read_session_events :: "session_file \<Rightarrow> json list" where
  "read_session_events [] = []"
| "read_session_events (Parsed event # f) = event # read_session_events f"
| "read_session_events (l # f) = read_session_events f"

text \<open>
  \<^verbatim>\<open>
  def extract_session_data(events):
      data = {'session_start': None, 'session_end': None, 'session_summary': None,
              'messages': [], 'other_events': []}
      for event in events:
          event_type = event.get('type')
          if event_type == 'session_start':
              data['session_start'] = event
          elif event_type == 'session_end':
              data['session_end'] = event
          elif event_type == 'session_summary':
              data['session_summary'] = event
          elif event_type in ('user', 'assistant', 'assistant_thinking'):
              data['messages'].append(event)
          else:
              data['other_events'].append(event)
      return data
  \<close>
  An event that is not a dictionary has no \<^verbatim>\<open>get\<close>: \<^verbatim>\<open>AttributeError\<close>, which
  nothing catches.
\<close>

record session_data =
  session_start :: "dict option"
  session_end :: "dict option"
  session_summary :: "dict option"
  messages :: "dict list"
  other_events :: "dict list"

definition message_types :: "json option list" where
  "message_types =
     [Some (JStr ''user''), Some (JStr ''assistant''), Some (JStr ''assistant_thinking'')]"

definition classify_event :: "dict \<Rightarrow> session_data \<Rightarrow> session_data" where
  "classify_event event data =
     (let event_type = dict_get event ''type''
      in if event_type = Some (JStr ''session_start'') then data\<lparr>session_start := Some event\<rparr>
         else if event_type = Some (JStr ''session_end'') then data\<lparr>session_end := Some event\<rparr>
         else if event_type = Some (JStr ''session_summary'')
         then data\<lparr>session_summary := Some event\<rparr>
         else if event_type \<in> set message_types
         then data\<lparr>messages := messages data @ [event]\<rparr>
         else data\<lparr>other_events := other_events data @ [event]\<rparr>)"

fun extract_loop :: "json list \<Rightarrow> session_data \<Rightarrow> py_error + session_data" where
  "extract_loop [] data = Inr data"
| "extract_loop (JObj event # events) data = extract_loop events (classify_event event data)"
| "extract_loop (j # events) data = Inl AttributeError"

definition extract_session_data :: "json list \<Rightarrow> py_error + session_data" where
  "extract_session_data events =
     extract_loop events
       \<lparr>session_start = None, session_end = None, session_summary = None,
        messages = [], other_events = []\<rparr>"

text \<open>
  The loop of \<^verbatim>\<open>merge_sessions\<close> that reads and classifies every file; the first
  exception ends it.
\<close>

fun extract_all :: "session_file list \<Rightarrow> py_error + session_data list" where
  "extract_all [] = Inr []"
| "extract_all (pf # pfs) =
     (case extract_session_data (read_session_events pf) of
        Inl err \<Rightarrow> Inl err
      | Inr session_data \<Rightarrow>
          (case extract_all pfs of
             Inl err \<Rightarrow> Inl err
           | Inr rest \<Rightarrow> Inr (session_data # rest)))"

section \<open>The merge (merge-sessions.py)\<close>

text \<open>Truth of a JSON value in a condition, and \<^verbatim>\<open>x or {}\<close> for an optional event.\<close>

fun truthy :: "json \<Rightarrow> bool" where
  "truthy JNull = False"
| "truthy (JBool b) = b"
| "truthy (JInt n) = (n \<noteq> 0)"
| "truthy (JStr s) = (s \<noteq> [])"
| "truthy (JArr xs) = (xs \<noteq> [])"
| "truthy (JObj d) = (d \<noteq> [])"

definition or_empty :: "dict option \<Rightarrow> dict" where
  "or_empty ev = (case ev of None \<Rightarrow> [] | Some d \<Rightarrow> d)"

text \<open>
  \<^verbatim>\<open>
  for key in ['task_id', 'model_lane', 'experiment_root', 'model_name']:
      if first_start.get(key):
          merged[key] = first_start[key]
  \<close>
\<close>

definition ab_keys :: "string list" where
  "ab_keys = [''task_id'', ''model_lane'', ''experiment_root'', ''model_name'']"

fun copy_ab_metadata :: "dict \<Rightarrow> string list \<Rightarrow> dict \<Rightarrow> dict" where
  "copy_ab_metadata first_start [] merged = merged"
| "copy_ab_metadata first_start (key # keys) merged =
     copy_ab_metadata first_start keys
       (case dict_get first_start key of
          None \<Rightarrow> merged
        | Some v \<Rightarrow> if truthy v then dict_set merged key v else merged)"

text \<open>
  \<^verbatim>\<open>
  'merged_from_sessions': [
      sd.get('session_start', {}).get('session_id', 'unknown')
      for sd in all_session_data
  ]
  \<close>
  The key \<^verbatim>\<open>session_start\<close> is always present in the data of a session, with the
  value \<^verbatim>\<open>None\<close> when the file has no such event; the default is then not used, and
  \<^verbatim>\<open>None.get\<close> raises \<^verbatim>\<open>AttributeError\<close>.
\<close>

fun merged_from_sessions :: "session_data list \<Rightarrow> py_error + json list" where
  "merged_from_sessions [] = Inr []"
| "merged_from_sessions (sd # sds) =
     (case session_start sd of
        None \<Rightarrow> Inl AttributeError
      | Some ev \<Rightarrow>
          (case merged_from_sessions sds of
             Inl err \<Rightarrow> Inl err
           | Inr ids \<Rightarrow> Inr (dict_get_default ev ''session_id'' (JStr ''unknown'') # ids)))"

definition transcript_path :: "nat \<Rightarrow> json" where
  "transcript_path n = JStr (''merged_from_'' @ str_nat n @ ''_sessions'')"

text \<open>
  The messages of all sessions, in the order of the files and, within a file, of its
  lines, each a copy with the two identifiers set:
  \<^verbatim>\<open>
  for sd in all_session_data:
      for msg in sd['messages']:
          msg_copy = msg.copy()
          msg_copy['session_id'] = merged_session_id
          msg_copy['original_session_id'] = msg.get('session_id', 'unknown')
          all_messages.append(msg_copy)
  all_messages.sort(key=lambda m: parse_timestamp(m.get('timestamp', '')))
  \<close>
\<close>

definition tag_message :: "string \<Rightarrow> dict \<Rightarrow> dict" where
  "tag_message merged_session_id msg =
     dict_set (dict_set msg ''session_id'' (JStr merged_session_id))
       ''original_session_id'' (dict_get_default msg ''session_id'' (JStr ''unknown''))"

definition collect_messages :: "string \<Rightarrow> session_data list \<Rightarrow> dict list" where
  "collect_messages merged_session_id all_session_data =
     concat (map (\<lambda>sd. map (tag_message merged_session_id) (messages sd)) all_session_data)"

definition message_time :: "isoparser \<Rightarrow> dict \<Rightarrow> datetime" where
  "message_time fromiso m = parse_timestamp fromiso (dict_get_default m ''timestamp'' (JStr []))"

text \<open>
  \<^verbatim>\<open>merge_sessions\<close>, for the start record, the message lines and the end record of
  the merged log. \<open>now k\<close> is the \<open>k\<close>-th reading of the clock, as an ISO string, and
  \<open>merged_session_id\<close> the new UUID. The result is \<open>Inr None\<close> when the function
  returns \<^verbatim>\<open>False\<close> for fewer than two files, and \<open>Inl\<close> for an exception, which
  nothing catches. Not in the model: the merged summary record, which is written between
  the messages and the end record (its payload is the subject of the next section and
  is taken to be well typed there), the raw transcripts, and the move of the originals.
  \<^verbatim>\<open>
  first_session = all_session_data[0]
  last_session = all_session_data[-1]
  first_start = first_session.get('session_start') or {}
  last_end = last_session.get('session_end') or {}
  ...
  merged_end = {
      'type': 'session_end',
      'timestamp': last_end.get('timestamp', datetime.now(timezone.utc).isoformat()),
      'session_id': merged_session_id,
      'transcript_path': f"merged_from_{len(processed_files)}_sessions",
      'cwd': last_end.get('cwd', first_start.get('cwd', '')),
      'reason': 'merged_sessions'
  }
  \<close>
\<close>

record merged_log =
  merged_start :: dict
  all_messages :: "dict list"
  merged_end :: dict

definition merge_sessions ::
  "isoparser \<Rightarrow> (nat \<Rightarrow> string) \<Rightarrow> string \<Rightarrow> session_file list \<Rightarrow> py_error + merged_log option" where
  "merge_sessions fromiso now merged_session_id files =
     (case find_session_files fromiso files of
        Inl err \<Rightarrow> Inl err
      | Inr processed_files \<Rightarrow>
          if length processed_files < 2 then Inr None
          else
            (case extract_all processed_files of
               Inl err \<Rightarrow> Inl err
             | Inr all_session_data \<Rightarrow>
                 (let first_session = hd all_session_data;
                      last_session = last all_session_data;
                      first_start = or_empty (session_start first_session);
                      last_end = or_empty (session_end last_session)
                  in case merged_from_sessions all_session_data of
                       Inl err \<Rightarrow> Inl err
                     | Inr ids \<Rightarrow>
                         (let start =
                                copy_ab_metadata first_start ab_keys
                                  [(''type'', JStr ''session_start''),
                                   (''timestamp'',
                                    dict_get_default first_start ''timestamp'' (JStr (now 0))),
                                   (''session_id'', JStr merged_session_id),
                                   (''transcript_path'', transcript_path (length processed_files)),
                                   (''cwd'', dict_get_default first_start ''cwd'' (JStr [])),
                                   (''git_metadata'',
                                    dict_get_default first_start ''git_metadata'' JNull),
                                   (''merged_from_sessions'', JArr ids)]
                          in case sort_by_datetime (message_time fromiso)
                                    (collect_messages merged_session_id all_session_data) of
                               Inl err \<Rightarrow> Inl err
                             | Inr msgs \<Rightarrow>
                                 Inr (Some
                                   \<lparr>merged_start = start,
                                    all_messages = msgs,
                                    merged_end =
                                      copy_ab_metadata first_start ab_keys
                                        [(''type'', JStr ''session_end''),
                                         (''timestamp'',
                                          dict_get_default last_end ''timestamp'' (JStr (now 2))),
                                         (''session_id'', JStr merged_session_id),
                                         (''transcript_path'',
                                          transcript_path (length processed_files)),
                                         (''cwd'',
                                          dict_get_default last_end ''cwd''
                                            (dict_get_default first_start ''cwd'' (JStr []))),
                                         (''reason'', JStr ''merged_sessions'')]\<rparr>)))))"

section \<open>The metric aggregator (merge-sessions.py)\<close>




























section \<open>Notions used in the statements about uploads\<close>

text \<open>
  The result of the task that uploads \<open>local_file\<close> under the folder \<open>task_id\<close>;
  whether a result is a success; whether it is a failure with one of the two codes that
  \<^verbatim>\<open>upload_experiment_data\<close> collects in \<^verbatim>\<open>conflict_error_codes\<close>.
\<close>

definition task_result :: "env \<Rightarrow> string \<Rightarrow> string \<Rightarrow> upload_return" where
  "task_result e task_id local_file =
     upload_file_to_supabase (remote e local_file (remote_file_path task_id local_file))"

definition ok_result :: "upload_return \<Rightarrow> bool" where
  "ok_result r = (case r of Some (True, c) \<Rightarrow> True | _ \<Rightarrow> False)"

definition conflict_result :: "upload_return \<Rightarrow> bool" where
  "conflict_result r = (r = Some (False, Some ''403'') \<or> r = Some (False, Some ''409''))"

text \<open>
  What one pass through the body of the loop records, and the test of the \<^verbatim>\<open>elif\<close>
  that starts another pass.
\<close>

definition attempt_entry_of ::
  "env \<Rightarrow> string \<Rightarrow> string \<Rightarrow> int \<Rightarrow> string list \<Rightarrow> json option \<Rightarrow> attempt_entry" where
  "attempt_entry_of e sf tid v files mf =
     (let p = get_upload_path_from_version sf tid v;
          r = upload_experiment_data e p files
      in \<lparr>at_version = v, at_upload_path = p, at_files = files, at_success = fst r,
          at_had_conflict_errors = fst (snd r), at_uploaded_count = snd (snd r),
          at_manifest_file =
            (if snd (snd r) > 0 then snd (update_manifest_version mf v) else mf)\<rparr>)"

definition retries :: "attempt_entry \<Rightarrow> nat \<Rightarrow> bool" where
  "retries en a = (\<not> at_success en \<and> at_had_conflict_errors en \<and> a < max_attempts - 1)"

section \<open>Example inputs\<close>

text \<open>A manifest that records no submission yet, and one that records version 2.\<close>

definition manifest_new :: dict where
  "manifest_new =
     [(''expert_name'', JStr ''ada''), (''task_id'', JStr ''task1''),
      (''timestamp'', JStr ''2025-01-01T00:00:00+00:00''),
      (''repo_url'', JStr ''https://example.org/repo.git''), (''assignments'', JObj [])]"

definition manifest_v2 :: dict where
  "manifest_v2 = manifest_new @ [(''last_submission_version'', JInt 2)]"

text \<open>
  A store that answers every upload under \<^verbatim>\<open>sprint/task1/\<close> with a 403, and accepts
  every other upload.
\<close>

definition env_forbidden :: env where
  "env_forbidden =
     \<lparr>remote = (\<lambda>local_file remote_path.
         \<lparr>prepare_error = None,
          tries = (\<lambda>i. if startswith remote_path ''sprint/task1/''
                        then OtherError ''HTTP 403 Forbidden'' else Uploaded)\<rparr>),
      other_files = (\<lambda>k. [''logs/model_a/session_1.jsonl''])\<rparr>"

text \<open>
  A store where every path under \<^verbatim>\<open>sprint/task1/\<close> is taken (409), and every other
  upload is accepted.
\<close>

definition env_conflict :: env where
  "env_conflict =
     \<lparr>remote = (\<lambda>local_file remote_path.
         \<lparr>prepare_error = None,
          tries = (\<lambda>i. if startswith remote_path ''sprint/task1/''
                        then OtherError ''409 Conflict: the resource already exists''
                        else Uploaded)\<rparr>),
      other_files = (\<lambda>k. [''logs/model_a/session_1.jsonl'', ''snapshots.zip''])\<rparr>"

text \<open>
  A store that accepts every upload, behind a network that resets the connection on
  every try for one of the three files.
\<close>

definition env_partial :: env where
  "env_partial =
     \<lparr>remote = (\<lambda>local_file remote_path.
         \<lparr>prepare_error = None,
          tries = (\<lambda>i. if local_file = ''snapshots.zip''
                        then NetworkError ''Connection reset by peer'' else Uploaded)\<rparr>),
      other_files = (\<lambda>k. [''logs/model_a/session_1.jsonl'', ''snapshots.zip''])\<rparr>"

text \<open>
  The required items that are absent from an experiment directory, and whether the
  checks of the logs let the validation pass.
\<close>

definition absent_required_items :: "experiment_dir \<Rightarrow> string set" where
  "absent_required_items d =
     {p \<in> set required_files. \<not> is_file d p} \<union> {p \<in> set required_dirs. \<not> is_dir d p}"

definition logs_pass :: "experiment_dir \<Rightarrow> bool" where
  "logs_pass d =
     (path_exists d ''logs'' \<longrightarrow>
        check_lane_logs d ''model_a'' = Inr () \<and> check_lane_logs d ''model_b'' = Inr ())"

text \<open>
  Three experiment directories. In the first nothing exists. The second has the manifest,
  the snapshots, both model directories and the logs directory, but no session log for
  lane A and no settings file for lane B. The third has one session log for each lane
  and the manifest and the snapshots, and lacks the directory \<^verbatim>\<open>model_b\<close> and both
  settings files.
\<close>

definition dir_empty :: experiment_dir where
  "dir_empty = \<lparr>entries = (\<lambda>p. None), session_logs = (\<lambda>lane. [])\<rparr>"

definition dir_no_log_a :: experiment_dir where
  "dir_no_log_a =
     \<lparr>entries = map_of
        [(''manifest.json'', File), (''snapshots'', Dir), (''model_a'', Dir),
         (''model_b'', Dir), (''logs'', Dir),
         (''model_a/.claude/settings.local.json'', File)],
      session_logs = (\<lambda>lane. if lane = ''model_b'' then [''session_b1.jsonl''] else [])\<rparr>"

definition dir_no_model_b :: experiment_dir where
  "dir_no_model_b =
     \<lparr>entries = map_of
        [(''manifest.json'', File), (''snapshots'', Dir), (''model_a'', Dir), (''logs'', Dir)],
      session_logs = (\<lambda>lane. if lane = ''model_a''
                             then [''session_a1.jsonl'', ''session_a1_raw.jsonl'']
                             else [''session_b1.jsonl''])\<rparr>"

text \<open>
  The mandatory session logs of a lane: the names that the glob finds and that do not
  end in \<^verbatim>\<open>_raw.jsonl\<close>.
\<close>

definition mandatory_logs :: "experiment_dir \<Rightarrow> string \<Rightarrow> string list" where
  "mandatory_logs d lane =
     filter (\<lambda>name. \<not> endswith name ''_raw.jsonl'') (session_logs d lane)"

text \<open>
  Five more experiment directories. The first has the manifest and nothing else. The
  next three have every required item; in them lane A has two session logs, lane B has
  only a raw log, and lane B has two session logs. The last has every required item and
  one session log for each lane.
\<close>

definition dir_no_snapshots :: experiment_dir where
  "dir_no_snapshots =
     \<lparr>entries = map_of [(''manifest.json'', File)], session_logs = (\<lambda>lane. [])\<rparr>"

definition all_required_entries :: "(string \<times> entry) list" where
  "all_required_entries =
     [(''manifest.json'', File), (''snapshots'', Dir), (''model_a'', Dir),
      (''model_b'', Dir), (''logs'', Dir),
      (''model_a/.claude/settings.local.json'', File),
      (''model_b/.claude/settings.local.json'', File)]"

definition dir_two_logs_a :: experiment_dir where
  "dir_two_logs_a =
     \<lparr>entries = map_of all_required_entries,
      session_logs = (\<lambda>lane. if lane = ''model_a''
                             then [''session_a1.jsonl'', ''session_a2.jsonl'']
                             else [])\<rparr>"

definition dir_no_log_b :: experiment_dir where
  "dir_no_log_b =
     \<lparr>entries = map_of all_required_entries,
      session_logs = (\<lambda>lane. if lane = ''model_a''
                             then [''session_a1.jsonl'']
                             else [''session_b1_raw.jsonl''])\<rparr>"

definition dir_two_logs_b :: experiment_dir where
  "dir_two_logs_b =
     \<lparr>entries = map_of all_required_entries,
      session_logs = (\<lambda>lane. if lane = ''model_a''
                             then [''session_a1.jsonl'', ''session_a1_raw.jsonl'']
                             else [''session_b1.jsonl'', ''session_b1_raw.jsonl'',
                                   ''session_b2.jsonl''])\<rparr>"

definition dir_complete :: experiment_dir where
  "dir_complete =
     \<lparr>entries = map_of all_required_entries,
      session_logs = (\<lambda>lane. if lane = ''model_a''
                             then [''session_a1.jsonl'', ''session_a1_raw.jsonl'']
                             else [''session_b1.jsonl''])\<rparr>"

section \<open>Notions used in the statements about the merge\<close>

text \<open>
  The message events of a file, in the order of its lines, and the last event of a
  given type in a file (a later event of the same type replaces an earlier one in
  \<^verbatim>\<open>extract_session_data\<close>).
\<close>

fun file_messages :: "session_file \<Rightarrow> dict list" where
  "file_messages [] = []"
| "file_messages (Parsed (JObj event) # f) =
     (if dict_get event ''type'' \<in> set message_types then event # file_messages f
      else file_messages f)"
| "file_messages (l # f) = file_messages f"

fun last_event :: "string \<Rightarrow> session_file \<Rightarrow> dict option" where
  "last_event ty [] = None"
| "last_event ty (Parsed (JObj event) # f) =
     (case last_event ty f of
        Some later \<Rightarrow> Some later
      | None \<Rightarrow> if dict_get event ''type'' = Some (JStr ty) then Some event else None)"
| "last_event ty (l # f) = last_event ty f"

text \<open>
  The tagged messages of a list of files, file by file: the input order of the sort.
\<close>

definition messages_in_file_order :: "string \<Rightarrow> session_file list \<Rightarrow> dict list" where
  "messages_in_file_order merged_session_id fs =
     concat (map (\<lambda>f. map (tag_message merged_session_id) (file_messages f)) fs)"

text \<open>Reading a result of \<^verbatim>\<open>merge_sessions\<close>: the message lines, and the timestamp of the end record.\<close>

definition merged_messages :: "py_error + merged_log option \<Rightarrow> dict list" where
  "merged_messages r = (case r of Inr (Some out) \<Rightarrow> all_messages out | _ \<Rightarrow> [])"

definition merged_end_timestamp :: "py_error + merged_log option \<Rightarrow> json option" where
  "merged_end_timestamp r =
     (case r of Inr (Some out) \<Rightarrow> dict_get (merged_end out) ''timestamp'' | _ \<Rightarrow> None)"

text \<open>
  A parser for the examples: it accepts exactly the strings
  \<^verbatim>\<open>YYYY-MM-DDTHH:MM:SS\<close> (naive) and \<^verbatim>\<open>YYYY-MM-DDTHH:MM:SS+00:00\<close> (aware, UTC) that
  name a date of the calendar, on which every version of \<^verbatim>\<open>datetime.fromisoformat\<close>
  agrees with it. The general statements below hold for every parser.
\<close>

definition digit_value :: "char \<Rightarrow> int option" where
  "digit_value c = map_of (zip ''0123456789'' [0, 1, 2, 3, 4, 5, 6, 7, 8, 9]) c"

fun decimal :: "string \<Rightarrow> int \<Rightarrow> int option" where
  "decimal [] acc = Some acc"
| "decimal (c # cs) acc =
     (case digit_value c of None \<Rightarrow> None | Some d \<Rightarrow> decimal cs (10 * acc + d))"

definition is_leap :: "int \<Rightarrow> bool" where
  "is_leap y = (y mod 4 = 0 \<and> (y mod 100 \<noteq> 0 \<or> y mod 400 = 0))"

definition days_in_month :: "int \<Rightarrow> int \<Rightarrow> int" where
  "days_in_month y m =
     (if m = 2 then (if is_leap y then 29 else 28)
      else if m = 4 \<or> m = 6 \<or> m = 9 \<or> m = 11 then 30 else 31)"

definition days_before_year :: "int \<Rightarrow> int" where
  "days_before_year y = 365 * (y - 1) + (y - 1) div 4 - (y - 1) div 100 + (y - 1) div 400"

definition days_before_month :: "int \<Rightarrow> int \<Rightarrow> int" where
  "days_before_month y m = sum_list (map (days_in_month y) [1..m - 1])"

definition microseconds :: "int \<Rightarrow> int \<Rightarrow> int \<Rightarrow> int \<Rightarrow> int \<Rightarrow> int \<Rightarrow> int" where
  "microseconds y mo d h mi sec =
     ((((days_before_year y + days_before_month y mo + (d - 1)) * 24 + h) * 60 + mi) * 60
      + sec) * 1000000"

definition fromisoformat_basic :: isoparser where
  "fromisoformat_basic s =
     (if (length s = 19 \<or> length s = 25) \<and> s ! 4 = CHR ''-'' \<and> s ! 7 = CHR ''-'' \<and>
         s ! 10 = CHR ''T'' \<and> s ! 13 = CHR '':'' \<and> s ! 16 = CHR '':''
      then
        (case (decimal (take 4 s) 0, decimal (take 2 (drop 5 s)) 0,
               decimal (take 2 (drop 8 s)) 0, decimal (take 2 (drop 11 s)) 0,
               decimal (take 2 (drop 14 s)) 0, decimal (take 2 (drop 17 s)) 0) of
           (Some y, Some mo, Some d, Some h, Some mi, Some sec) \<Rightarrow>
             (if 1 \<le> y \<and> 1 \<le> mo \<and> mo \<le> 12 \<and> 1 \<le> d \<and> d \<le> days_in_month y mo \<and>
                 h < 24 \<and> mi < 60 \<and> sec < 60
              then (if drop 19 s = [] then Some (Naive (microseconds y mo d h mi sec))
                    else if drop 19 s = ''+00:00''
                    then Some (Aware (microseconds y mo d h mi sec))
                    else None)
              else None)
         | _ \<Rightarrow> None)
      else None)"

section \<open>Example session files\<close>

text \<open>
  Session A runs from 09:00 to 12:00, session B from 10:00 to 10:30, on the same day.
  A has a message at 09:05, one whose timestamp is not a date, and one at 11:30; B has
  a message with no timestamp and one at 10:10 that carries no \<^verbatim>\<open>session_id\<close>.
  Each file has a line that is not JSON or is empty.
\<close>

definition file_a :: session_file where
  "file_a =
     [Parsed (JObj [(''type'', JStr ''session_start''),
                    (''timestamp'', JStr ''2025-03-01T09:00:00Z''),
                    (''session_id'', JStr ''sess-a''), (''cwd'', JStr ''/work/a''),
                    (''model_lane'', JStr ''model_a'')]),
      Parsed (JObj [(''type'', JStr ''user''),
                    (''timestamp'', JStr ''2025-03-01T09:05:00+00:00''),
                    (''session_id'', JStr ''sess-a''), (''content'', JStr ''a1'')]),
      Blank,
      Parsed (JObj [(''type'', JStr ''assistant''), (''timestamp'', JStr ''yesterday''),
                    (''session_id'', JStr ''sess-a''), (''content'', JStr ''a2'')]),
      Parsed (JObj [(''type'', JStr ''assistant''),
                    (''timestamp'', JStr ''2025-03-01T11:30:00+00:00''),
                    (''session_id'', JStr ''sess-a''), (''content'', JStr ''a3'')]),
      Parsed (JObj [(''type'', JStr ''session_end''),
                    (''timestamp'', JStr ''2025-03-01T12:00:00+00:00''),
                    (''session_id'', JStr ''sess-a''), (''cwd'', JStr ''/work/a'')])]"

definition file_b :: session_file where
  "file_b =
     [Parsed (JObj [(''type'', JStr ''session_start''),
                    (''timestamp'', JStr ''2025-03-01T10:00:00+00:00''),
                    (''session_id'', JStr ''sess-b''), (''cwd'', JStr ''/work/b'')]),
      Parsed (JObj [(''type'', JStr ''assistant_thinking''),
                    (''session_id'', JStr ''sess-b''), (''content'', JStr ''b1'')]),
      Malformed,
      Parsed (JObj [(''type'', JStr ''user''),
                    (''timestamp'', JStr ''2025-03-01T10:10:00+00:00''),
                    (''content'', JStr ''b2'')]),
      Parsed (JObj [(''type'', JStr ''session_end''),
                    (''timestamp'', JStr ''2025-03-01T10:30:00+00:00''),
                    (''session_id'', JStr ''sess-b''), (''cwd'', JStr ''/work/b'')])]"

definition clock :: "nat \<Rightarrow> string" where
  "clock k = ''2025-03-02T08:00:00+00:00''"

text \<open>The merged log of the two example files, with the new identifier \<^verbatim>\<open>merged-1\<close>.\<close>

definition merged_ab :: merged_log where
  "merged_ab =
     \<lparr>merged_start =
        [(''type'', JStr ''session_start''), (''timestamp'', JStr ''2025-03-01T09:00:00Z''),
         (''session_id'', JStr ''merged-1''),
         (''transcript_path'', JStr ''merged_from_2_sessions''), (''cwd'', JStr ''/work/a''),
         (''git_metadata'', JNull),
         (''merged_from_sessions'', JArr [JStr ''sess-a'', JStr ''sess-b'']),
         (''model_lane'', JStr ''model_a'')],
      all_messages =
        [[(''type'', JStr ''assistant''), (''timestamp'', JStr ''yesterday''),
          (''session_id'', JStr ''merged-1''), (''content'', JStr ''a2''),
          (''original_session_id'', JStr ''sess-a'')],
         [(''type'', JStr ''assistant_thinking''), (''session_id'', JStr ''merged-1''),
          (''content'', JStr ''b1''), (''original_session_id'', JStr ''sess-b'')],
         [(''type'', JStr ''user''), (''timestamp'', JStr ''2025-03-01T09:05:00+00:00''),
          (''session_id'', JStr ''merged-1''), (''content'', JStr ''a1''),
          (''original_session_id'', JStr ''sess-a'')],
         [(''type'', JStr ''user''), (''timestamp'', JStr ''2025-03-01T10:10:00+00:00''),
          (''content'', JStr ''b2''), (''session_id'', JStr ''merged-1''),
          (''original_session_id'', JStr ''unknown'')],
         [(''type'', JStr ''assistant''), (''timestamp'', JStr ''2025-03-01T11:30:00+00:00''),
          (''session_id'', JStr ''merged-1''), (''content'', JStr ''a3''),
          (''original_session_id'', JStr ''sess-a'')]],
      merged_end =
        [(''type'', JStr ''session_end''), (''timestamp'', JStr ''2025-03-01T10:30:00+00:00''),
         (''session_id'', JStr ''merged-1''),
         (''transcript_path'', JStr ''merged_from_2_sessions''), (''cwd'', JStr ''/work/b''),
         (''reason'', JStr ''merged_sessions''), (''model_lane'', JStr ''model_a'')]\<rparr>"

section \<open>Notions used in the statements about the aggregator\<close>










section \<open>Properties of the version ledger\<close>

lemma dict_get_dict_set_same: "dict_get (dict_set d k v) k = Some v"
  by (induction d) (auto simp: dict_get_def)

lemma dict_get_dict_set_other: "k' \<noteq> k \<Longrightarrow> dict_get (dict_set d k v) k' = dict_get d k'"
  by (induction d) (auto simp: dict_get_def)

lemma filter_dict_set_other:
  "filter (\<lambda>p. fst p \<noteq> k) (dict_set d k v) = filter (\<lambda>p. fst p \<noteq> k) d"
  by (induction d) auto

lemma dict_set_idem: "dict_set (dict_set d k v) k v = dict_set d k v"
  by (induction d) auto

lemma manifest_field_update_same:
  "manifest_field (snd (update_manifest_version (Some (JObj m)) v)) ''last_submission_version''
     = Some (JInt v)"
  by (simp add: manifest_field_def update_manifest_version_def dict_get_dict_set_same)

lemma manifest_field_update_other:
  "k \<noteq> ''last_submission_version'' \<Longrightarrow>
   manifest_field (snd (update_manifest_version mf v)) k = manifest_field mf k"
  by (auto simp: manifest_field_def update_manifest_version_def dict_get_dict_set_other
           split: option.splits json.splits)

lemma update_manifest_version_twice:
  "snd (update_manifest_version (snd (update_manifest_version mf v)) v)
     = snd (update_manifest_version mf v)"
  by (auto simp: update_manifest_version_def dict_set_idem split: option.splits json.splits)

text \<open>
  Claim C8. The starting version is 0 when the manifest records no
  \<^verbatim>\<open>last_submission_version\<close> and the recorded version plus one when it records an
  integer (recorded 4 gives 5). The remote path is \<^verbatim>\<open>folder/taskId\<close> for version 0
  and \<^verbatim>\<open>folder/taskId_v\<close> followed by the version in decimal for a version of at
  least 1.
\<close>

theorem version_ledger:
  "(dict_get manifest ''last_submission_version'' = None \<longrightarrow>
      initial_attempt_version manifest = Inr 0) \<and>
   (dict_get manifest ''last_submission_version'' = Some (JInt last_version) \<longrightarrow>
      initial_attempt_version manifest = Inr (last_version + 1)) \<and>
   initial_attempt_version (manifest_new @ [(''last_submission_version'', JInt 4)]) = Inr 5 \<and>
   get_upload_path_from_version folder task_id 0 = folder @ ''/'' @ task_id \<and>
   (1 \<le> version \<longrightarrow>
      get_upload_path_from_version folder task_id version
        = folder @ ''/'' @ task_id @ ''_v'' @ str_int version)"
  by (simp add: initial_attempt_version_def get_upload_path_from_version_def dict_get_def
        manifest_new_def)

theorem version_ledger_witness:
  "initial_attempt_version manifest_new = Inr 0 \<and>
   initial_attempt_version manifest_v2 = Inr 3 \<and>
   get_upload_path_from_version ''sprint'' ''task1'' 0 = ''sprint/task1'' \<and>
   get_upload_path_from_version ''sprint'' ''task1'' 12 = ''sprint/task1_v12''"
proof -
  have none: "dict_get manifest_new ''last_submission_version'' = None"
    by (simp add: dict_get_def manifest_new_def)
  have some: "dict_get manifest_v2 ''last_submission_version'' = Some (JInt 2)"
    by (simp add: dict_get_def manifest_v2_def manifest_new_def)
  have str: "str_int 12 = ''12''"
    by (simp add: str_int_def str_nat.simps digit_char_def)
  show ?thesis
    using none some str
      version_ledger [of manifest_new 0 "''sprint''" "''task1''" 12]
      version_ledger [of manifest_v2 2 "''sprint''" "''task1''" 12]
    by simp
qed

text \<open>
  Claim C10. Saving a version changes the field \<^verbatim>\<open>last_submission_version\<close> of the
  manifest and nothing else: on a manifest that is a JSON object the update succeeds and
  the field then holds the version; every other field reads as before, and the other
  key/value pairs are the same and in the same order; saving the same version a second
  time leaves the file as the first time left it.
\<close>

theorem update_manifest_version_frame:
  "fst (update_manifest_version (Some (JObj m)) v) = True \<and>
   manifest_field (snd (update_manifest_version (Some (JObj m)) v)) ''last_submission_version''
     = Some (JInt v) \<and>
   (\<forall>k. k \<noteq> ''last_submission_version'' \<longrightarrow>
      manifest_field (snd (update_manifest_version mf v)) k = manifest_field mf k) \<and>
   (\<exists>m'. snd (update_manifest_version (Some (JObj m)) v) = Some (JObj m') \<and>
      filter (\<lambda>p. fst p \<noteq> ''last_submission_version'') m'
        = filter (\<lambda>p. fst p \<noteq> ''last_submission_version'') m) \<and>
   snd (update_manifest_version (snd (update_manifest_version mf v)) v)
     = snd (update_manifest_version mf v)"
proof -
  have "fst (update_manifest_version (Some (JObj m)) v) = True"
    by (simp add: update_manifest_version_def)
  moreover have "\<exists>m'. snd (update_manifest_version (Some (JObj m)) v) = Some (JObj m') \<and>
      filter (\<lambda>p. fst p \<noteq> ''last_submission_version'') m'
        = filter (\<lambda>p. fst p \<noteq> ''last_submission_version'') m"
    by (simp add: update_manifest_version_def filter_dict_set_other)
  ultimately show ?thesis
    using manifest_field_update_same manifest_field_update_other update_manifest_version_twice
    by blast
qed

theorem update_manifest_version_frame_witness:
  "manifest_field (snd (update_manifest_version (Some (JObj manifest_v2)) 3)) ''task_id''
     = Some (JStr ''task1'') \<and>
   manifest_field (snd (update_manifest_version (Some (JObj manifest_v2)) 3))
     ''last_submission_version'' = Some (JInt 3)"
proof -
  have k: "''task_id'' \<noteq> ''last_submission_version''" by simp
  have old: "manifest_field (Some (JObj manifest_v2)) ''task_id'' = Some (JStr ''task1'')"
    by (simp add: manifest_field_def dict_get_def manifest_v2_def manifest_new_def)
  show ?thesis
    using k old update_manifest_version_frame [of manifest_v2 3 "Some (JObj manifest_v2)"]
    by metis
qed

section \<open>Properties of the upload scheduler\<close>

lemma fold_record_result_uploaded:
  "uploaded_count (fold record_result rs t)
     = uploaded_count t + length (filter (\<lambda>fr. ok_result (snd fr)) rs)"
  by (induction rs arbitrary: t)
     (auto simp: record_result_def ok_result_def split: option.splits bool.splits prod.splits)

lemma fold_record_result_failed:
  "failed_files (fold record_result rs t)
     = failed_files t @ map fst (filter (\<lambda>fr. \<not> ok_result (snd fr)) rs)"
  by (induction rs arbitrary: t)
     (auto simp: record_result_def ok_result_def split: option.splits bool.splits prod.splits)

lemma fold_record_result_conflict:
  "conflict_error_codes (fold record_result rs t) = [] \<longleftrightarrow>
     conflict_error_codes t = [] \<and> \<not> list_ex (\<lambda>fr. conflict_result (snd fr)) rs"
  by (induction rs arbitrary: t)
     (auto simp: record_result_def conflict_result_def List.insert_def
           split: option.splits bool.splits prod.splits)

text \<open>
  What \<^verbatim>\<open>upload_experiment_data\<close> returns, said without the loop: every task
  succeeded; some task failed with code 403 or 409; the number of tasks that succeeded.
\<close>

lemma upload_experiment_data_eq:
  "upload_experiment_data e p files =
     (list_all (\<lambda>f. ok_result (task_result e p f)) files,
      list_ex (\<lambda>f. conflict_result (task_result e p f)) files,
      length (filter (\<lambda>f. ok_result (task_result e p f)) files))"
proof -
  let ?rs = "task_results e p files"
  let ?t0 = "\<lparr>uploaded_count = 0, failed_files = [], conflict_error_codes = []\<rparr>"
  have rs: "?rs = map (\<lambda>f. (f, task_result e p f)) files"
    by (simp add: task_results_def task_result_def)
  have a: "uploaded_count (fold record_result ?rs ?t0)
             = length (filter (\<lambda>f. ok_result (task_result e p f)) files)"
    by (simp add: fold_record_result_uploaded rs filter_map o_def)
  have b: "(length (failed_files (fold record_result ?rs ?t0)) = 0)
             = list_all (\<lambda>f. ok_result (task_result e p f)) files"
    by (simp add: fold_record_result_failed rs filter_map o_def list_all_iff filter_empty_conv)
  have c: "(length (conflict_error_codes (fold record_result ?rs ?t0)) > 0)
             = list_ex (\<lambda>f. conflict_result (task_result e p f)) files"
    by (simp add: fold_record_result_conflict rs list_ex_iff)
  show ?thesis
    unfolding upload_experiment_data_def Let_def using a b c by simp
qed

text \<open>
  The workers finish in any order; the value returned is the same for every order in
  which the results are handled.
\<close>

lemma upload_experiment_data_order:
  assumes "mset files = mset files'"
  shows "upload_experiment_data e p files = upload_experiment_data e p files'"
proof -
  have s: "set files = set files'"
    using assms by (rule mset_eq_setD)
  have "length (filter P files) = length (filter P files')" for P :: "string \<Rightarrow> bool"
  proof -
    have "mset (filter P files) = mset (filter P files')"
      using assms by simp
    then show ?thesis by (rule mset_eq_length)
  qed
  then show ?thesis
    by (simp add: upload_experiment_data_eq list_all_iff list_ex_iff s)
qed

text \<open>The loop of \<^verbatim>\<open>main\<close>, one pass at a time.\<close>

lemma upload_attempts_exhausted:
  "\<not> a < max_attempts \<Longrightarrow>
   upload_attempts e sf tid a v k files mf fv =
     \<lparr>result = Failed_after_all_attempts, final_version = fv, manifest_file = mf,
      attempts = []\<rparr>"
  by (subst upload_attempts.simps) simp

lemma upload_attempts_retry:
  "a < max_attempts \<Longrightarrow> retries (attempt_entry_of e sf tid v files mf) a \<Longrightarrow>
   upload_attempts e sf tid a v k files mf fv =
     (let en = attempt_entry_of e sf tid v files mf;
          rest = upload_attempts e sf tid (a + 1) (v + 1) (k + 1)
                   (get_file_list_for_upload e (k + 1)) (at_manifest_file en)
                   (if at_uploaded_count en > 0 then Some v else fv)
      in rest\<lparr>attempts := en # attempts rest\<rparr>)"
  by (subst upload_attempts.simps) (simp add: attempt_entry_of_def retries_def Let_def)

lemma upload_attempts_stop:
  "a < max_attempts \<Longrightarrow> \<not> retries (attempt_entry_of e sf tid v files mf) a \<Longrightarrow>
   upload_attempts e sf tid a v k files mf fv =
     (let en = attempt_entry_of e sf tid v files mf
      in \<lparr>result = (if at_success en then Upload_successful (at_upload_path en)
                    else if at_had_conflict_errors en then Failed_max_attempts
                    else Failed_non_conflict),
          final_version = (if at_uploaded_count en > 0 then Some v else fv),
          manifest_file = at_manifest_file en, attempts = [en]\<rparr>)"
  by (subst upload_attempts.simps) (auto simp add: attempt_entry_of_def retries_def Let_def)

lemma attempts_unfold:
  "a < max_attempts \<Longrightarrow>
   attempts (upload_attempts e sf tid a v k files mf fv) =
     attempt_entry_of e sf tid v files mf #
     (if retries (attempt_entry_of e sf tid v files mf) a
      then attempts (upload_attempts e sf tid (a + 1) (v + 1) (k + 1)
                      (get_file_list_for_upload e (k + 1))
                      (at_manifest_file (attempt_entry_of e sf tid v files mf))
                      (if at_uploaded_count (attempt_entry_of e sf tid v files mf) > 0
                       then Some v else fv))
      else [])"
  by (simp add: upload_attempts_retry upload_attempts_stop Let_def)

lemma attempts_nonempty:
  "a < max_attempts \<Longrightarrow> attempts (upload_attempts e sf tid a v k files mf fv) \<noteq> []"
  by (simp add: attempts_unfold)

text \<open>
  The log of a run that starts with pass \<open>a\<close> at version \<open>v\<close>: entry \<open>i\<close> has version
  \<open>v + i\<close>, and it has a successor exactly when it satisfies the test of the
  \<^verbatim>\<open>elif\<close>.
\<close>

lemma attempts_chain:
  "i < length (attempts (upload_attempts e sf tid a v k files mf fv)) \<Longrightarrow>
   at_version (attempts (upload_attempts e sf tid a v k files mf fv) ! i) = v + int i \<and>
   (Suc i < length (attempts (upload_attempts e sf tid a v k files mf fv)) \<longleftrightarrow>
      retries (attempts (upload_attempts e sf tid a v k files mf fv) ! i) (a + i))"
proof (induction i arbitrary: a v k files mf fv)
  case 0
  have lt: "a < max_attempts"
    using 0 by (cases "a < max_attempts") (simp_all add: upload_attempts_exhausted)
  have v0: "at_version (attempt_entry_of e sf tid v files mf) = v"
    by (simp add: attempt_entry_of_def Let_def)
  show ?case
  proof (cases "retries (attempt_entry_of e sf tid v files mf) a")
    case True
    then have "a + 1 < max_attempts" by (auto simp add: retries_def)
    then have "Suc a < max_attempts" by simp
    then show ?thesis using True lt v0
      by (simp add: attempts_unfold [of a] attempts_nonempty)
  next
    case False
    then show ?thesis using lt v0 by (simp add: attempts_unfold)
  qed
next
  case (Suc j)
  have lt: "a < max_attempts"
    using Suc.prems by (cases "a < max_attempts") (simp_all add: upload_attempts_exhausted)
  let ?en = "attempt_entry_of e sf tid v files mf"
  have r: "retries ?en a"
    using Suc.prems lt by (cases "retries ?en a") (simp_all add: attempts_unfold)
  let ?rest = "upload_attempts e sf tid (a + 1) (v + 1) (k + 1)
                 (get_file_list_for_upload e (k + 1)) (at_manifest_file ?en)
                 (if at_uploaded_count ?en > 0 then Some v else fv)"
  have eq: "attempts (upload_attempts e sf tid a v k files mf fv) = ?en # attempts ?rest"
    using lt r by (simp add: attempts_unfold)
  have j: "j < length (attempts ?rest)"
    using Suc.prems eq by simp
  from Suc.IH [OF j] show ?case
    by (simp add: eq)
qed

text \<open>How the loop ends is decided by the last pass.\<close>

lemma result_by_last:
  "a < max_attempts \<Longrightarrow>
   result (upload_attempts e sf tid a v k files mf fv) =
     (let en = last (attempts (upload_attempts e sf tid a v k files mf fv))
      in if at_success en then Upload_successful (at_upload_path en)
         else if at_had_conflict_errors en then Failed_max_attempts
         else Failed_non_conflict)"
proof (induction "max_attempts - a" arbitrary: a v k files mf fv)
  case 0
  then show ?case by simp
next
  case (Suc n)
  let ?en = "attempt_entry_of e sf tid v files mf"
  show ?case
  proof (cases "retries ?en a")
    case True
    then have lt: "Suc a < max_attempts" by (auto simp: retries_def)
    then have n: "n = max_attempts - Suc a" using Suc.hyps(2) by simp
    from Suc.hyps(1) [OF n lt] show ?thesis
      using True Suc.prems lt
      by (simp add: upload_attempts_retry [of a] Let_def attempts_nonempty)
  next
    case False
    then show ?thesis using Suc.prems
      by (simp add: upload_attempts_stop Let_def)
  qed
qed

text \<open>
  Every entry of the log is what one pass records, for the version and the files of the
  entry and some state of the manifest file; when the manifest file is a JSON object at
  the start, it is one before every pass.
\<close>

lemma attempts_entries:
  "en \<in> set (attempts (upload_attempts e sf tid a v k files mf fv)) \<Longrightarrow>
   \<exists>mf0. en = attempt_entry_of e sf tid (at_version en) (at_files en) mf0"
proof (induction "max_attempts - a" arbitrary: a v k files mf fv)
  case 0
  then show ?case by (simp add: upload_attempts_exhausted)
next
  case (Suc n)
  then have lt: "a < max_attempts" by simp
  let ?en = "attempt_entry_of e sf tid v files mf"
  have here: "?en = attempt_entry_of e sf tid (at_version ?en) (at_files ?en) mf"
    by (simp add: attempt_entry_of_def Let_def)
  show ?case
  proof (cases "en = ?en")
    case True
    then show ?thesis using here by metis
  next
    case False
    with Suc.prems(1) lt have r: "retries ?en a"
      and mem: "en \<in> set (attempts (upload_attempts e sf tid (a + 1) (v + 1) (k + 1)
                      (get_file_list_for_upload e (k + 1)) (at_manifest_file ?en)
                      (if at_uploaded_count ?en > 0 then Some v else fv)))"
      by (auto simp: attempts_unfold split: if_splits)
    from r have "Suc a < max_attempts" by (auto simp: retries_def)
    with Suc.hyps(2) have n: "n = max_attempts - (a + 1)" by simp
    from Suc.hyps(1) [OF n mem] show ?thesis .
  qed
qed

lemma attempts_entries_object:
  "en \<in> set (attempts (upload_attempts e sf tid a v k files (Some (JObj m)) fv)) \<Longrightarrow>
   \<exists>m0. en = attempt_entry_of e sf tid (at_version en) (at_files en) (Some (JObj m0))"
proof (induction "max_attempts - a" arbitrary: a v k files m fv)
  case 0
  then show ?case by (simp add: upload_attempts_exhausted)
next
  case (Suc n)
  then have lt: "a < max_attempts" by simp
  let ?en = "attempt_entry_of e sf tid v files (Some (JObj m))"
  have here: "?en = attempt_entry_of e sf tid (at_version ?en) (at_files ?en) (Some (JObj m))"
    by (simp add: attempt_entry_of_def Let_def)
  have "\<exists>m'. at_manifest_file ?en = Some (JObj m')"
    by (simp add: attempt_entry_of_def Let_def update_manifest_version_def)
  then obtain m' where m': "at_manifest_file ?en = Some (JObj m')" ..
  show ?case
  proof (cases "en = ?en")
    case True
    then show ?thesis using here by metis
  next
    case False
    with Suc.prems(1) lt have r: "retries ?en a"
      and mem: "en \<in> set (attempts (upload_attempts e sf tid (a + 1) (v + 1) (k + 1)
                      (get_file_list_for_upload e (k + 1)) (Some (JObj m'))
                      (if at_uploaded_count ?en > 0 then Some v else fv)))"
      by (auto simp: attempts_unfold m' split: if_splits)
    from r have "Suc a < max_attempts" by (auto simp: retries_def)
    with Suc.hyps(2) have n: "n = max_attempts - (a + 1)" by simp
    from Suc.hyps(1) [OF n mem] show ?thesis .
  qed
qed

lemma attempt_entry_of_fields:
  "at_upload_path (attempt_entry_of e sf tid v files mf) = get_upload_path_from_version sf tid v"
  "at_version (attempt_entry_of e sf tid v files mf) = v"
  "at_files (attempt_entry_of e sf tid v files mf) = files"
  "at_success (attempt_entry_of e sf tid v files mf)
     = list_all (\<lambda>f. ok_result (task_result e (get_upload_path_from_version sf tid v) f)) files"
  "at_had_conflict_errors (attempt_entry_of e sf tid v files mf)
     = list_ex (\<lambda>f. conflict_result (task_result e (get_upload_path_from_version sf tid v) f)) files"
  "at_uploaded_count (attempt_entry_of e sf tid v files mf)
     = length (filter (\<lambda>f. ok_result (task_result e (get_upload_path_from_version sf tid v) f)) files)"
  "at_manifest_file (attempt_entry_of e sf tid v files mf)
     = (if at_uploaded_count (attempt_entry_of e sf tid v files mf) > 0
        then snd (update_manifest_version mf v) else mf)"
  by (simp_all add: attempt_entry_of_def Let_def upload_experiment_data_eq)

lemma ok_result_iff: "ok_result r \<longleftrightarrow> (\<exists>c. r = Some (True, c))"
  by (auto simp: ok_result_def split: option.splits bool.splits)

text \<open>
  An exception that is not taken for a network error and whose message holds \<^verbatim>\<open>403\<close>
  or, in any case of letters, \<^verbatim>\<open>forbidden\<close> gives the task the error code
  \<^verbatim>\<open>"403"\<close>, without a retry of the file.
\<close>

lemma authorization_error_code:
  assumes "prepare_error t = None" and "tries t 0 = OtherError msg"
    and "\<not> list_ex (\<lambda>keyword. str_contains keyword (lower msg)) network_keywords"
    and "str_contains ''403'' msg \<or> str_contains ''forbidden'' (lower msg)"
  shows "upload_file_to_supabase t = Some (False, Some ''403'')"
  using assms
  by (simp add: upload_file_to_supabase_def upload_retry_loop.simps [of _ 0]
        max_upload_retries_def classify_error_def)

lemma str_int_1: "str_int 1 = ''1''"
  by (simp add: str_int_def str_nat.simps digit_char_def)

lemma manifest_file_last:
  "a < max_attempts \<Longrightarrow>
   manifest_file (upload_attempts e sf tid a v k files mf fv)
     = at_manifest_file (last (attempts (upload_attempts e sf tid a v k files mf fv)))"
proof (induction "max_attempts - a" arbitrary: a v k files mf fv)
  case 0
  then show ?case by simp
next
  case (Suc n)
  let ?en = "attempt_entry_of e sf tid v files mf"
  show ?case
  proof (cases "retries ?en a")
    case True
    then have lt: "Suc a < max_attempts" by (auto simp: retries_def)
    then have n: "n = max_attempts - Suc a" using Suc.hyps(2) by simp
    from Suc.hyps(1) [OF n lt] show ?thesis
      using True Suc.prems lt
      by (simp add: upload_attempts_retry [of a] Let_def attempts_nonempty)
  next
    case False
    then show ?thesis using Suc.prems
      by (simp add: upload_attempts_stop Let_def)
  qed
qed

text \<open>
  Claim C1, as amended. In a run of the loop from its first pass, attempt \<open>i\<close> uses
  version \<open>v + i\<close> and the path of that version. The flag \<^verbatim>\<open>had_conflict_errors\<close>
  of an attempt is set exactly when some task of the attempt failed with the code 403
  or the code 409: the two codes are one class. A further attempt, at the next version,
  follows exactly when the attempt did not succeed, the flag is set and the attempt is
  not the fifth. The loop ends in success when its last attempt succeeded, in
  "max attempts reached" when the last attempt failed with the flag set, and in
  "non-conflict errors" when it failed with no task of code 403 or 409.
\<close>

theorem retry_on_403_or_409:
  assumes "tr = attempts (upload_attempts e sf tid 0 v k files mf fv)" and "i < length tr"
  shows "at_version (tr ! i) = v + int i \<and>
     at_upload_path (tr ! i) = get_upload_path_from_version sf tid (v + int i) \<and>
     (at_success (tr ! i) \<longleftrightarrow>
        (\<forall>f \<in> set (at_files (tr ! i)). \<exists>c. task_result e (at_upload_path (tr ! i)) f = Some (True, c))) \<and>
     (at_had_conflict_errors (tr ! i) \<longleftrightarrow>
        (\<exists>f \<in> set (at_files (tr ! i)).
           task_result e (at_upload_path (tr ! i)) f = Some (False, Some ''403'') \<or>
           task_result e (at_upload_path (tr ! i)) f = Some (False, Some ''409''))) \<and>
     (Suc i < length tr \<longleftrightarrow>
        \<not> at_success (tr ! i) \<and> at_had_conflict_errors (tr ! i) \<and> i < 4) \<and>
     result (upload_attempts e sf tid 0 v k files mf fv) =
       (if at_success (last tr) then Upload_successful (at_upload_path (last tr))
        else if at_had_conflict_errors (last tr) then Failed_max_attempts
        else Failed_non_conflict)"
proof -
  let ?en = "tr ! i"
  have mem: "?en \<in> set (attempts (upload_attempts e sf tid 0 v k files mf fv))"
    using assms by simp
  from attempts_entries [OF mem] obtain mf0
    where en: "?en = attempt_entry_of e sf tid (at_version ?en) (at_files ?en) mf0" ..
  have chain: "at_version ?en = v + int i"
    "Suc i < length tr \<longleftrightarrow> retries ?en (0 + i)"
    using attempts_chain [of i e sf tid 0 v k files mf fv] assms by simp_all
  have path: "at_upload_path ?en = get_upload_path_from_version sf tid (v + int i)"
    using attempt_entry_of_fields(1) [of e sf tid "at_version ?en" "at_files ?en" mf0] en chain(1)
    by simp
  have ok: "at_success ?en \<longleftrightarrow>
      (\<forall>f \<in> set (at_files ?en). \<exists>c. task_result e (at_upload_path ?en) f = Some (True, c))"
    using attempt_entry_of_fields(4) [of e sf tid "at_version ?en" "at_files ?en" mf0] en chain(1) path
    by (simp add: list_all_iff ok_result_iff)
  have cf: "at_had_conflict_errors ?en \<longleftrightarrow>
      (\<exists>f \<in> set (at_files ?en).
         task_result e (at_upload_path ?en) f = Some (False, Some ''403'') \<or>
         task_result e (at_upload_path ?en) f = Some (False, Some ''409''))"
    using attempt_entry_of_fields(5) [of e sf tid "at_version ?en" "at_files ?en" mf0] en chain(1) path
    by (simp add: list_ex_iff conflict_result_def)
  have more: "Suc i < length tr \<longleftrightarrow>
      \<not> at_success ?en \<and> at_had_conflict_errors ?en \<and> i < 4"
    using chain(2) by (simp add: retries_def max_attempts_def)
  have "0 < max_attempts" by (simp add: max_attempts_def)
  from result_by_last [OF this, of e sf tid v k files mf fv]
  have res: "result (upload_attempts e sf tid 0 v k files mf fv) =
       (if at_success (last tr) then Upload_successful (at_upload_path (last tr))
        else if at_had_conflict_errors (last tr) then Failed_max_attempts
        else Failed_non_conflict)"
    using assms(1) by (simp add: Let_def)
  show ?thesis
    using chain(1) path ok cf more res by blast
qed

text \<open>
  Witness for C1, as amended: a store that forbids every upload at version 0. The
  first attempt has the flag set, and a second attempt follows.
\<close>

theorem retry_on_403_or_409_witness:
  "at_version (attempts (upload_attempts env_forbidden ''sprint'' ''task1'' 0 0 0
       (get_file_list_for_upload env_forbidden 0) (Some (JObj manifest_new)) None) ! 0) = 0 \<and>
   at_had_conflict_errors (attempts (upload_attempts env_forbidden ''sprint'' ''task1'' 0 0 0
       (get_file_list_for_upload env_forbidden 0) (Some (JObj manifest_new)) None) ! 0) \<and>
   Suc 0 < length (attempts (upload_attempts env_forbidden ''sprint'' ''task1'' 0 0 0
       (get_file_list_for_upload env_forbidden 0) (Some (JObj manifest_new)) None))"
proof -
  let ?tr = "attempts (upload_attempts env_forbidden ''sprint'' ''task1'' 0 0 0
       (get_file_list_for_upload env_forbidden 0) (Some (JObj manifest_new)) None)"
  have len: "0 < length ?tr" by code_simp
  have f: "''manifest.json'' \<in> set (at_files (?tr ! 0))" by code_simp
  have r: "task_result env_forbidden (at_upload_path (?tr ! 0)) ''manifest.json''
             = Some (False, Some ''403'')" by code_simp
  from retry_on_403_or_409 [OF refl len]
  have v: "at_version (?tr ! 0) = 0 + int 0"
    and ok: "at_success (?tr ! 0) \<longleftrightarrow>
        (\<forall>f \<in> set (at_files (?tr ! 0)).
           \<exists>c. task_result env_forbidden (at_upload_path (?tr ! 0)) f = Some (True, c))"
    and cf: "at_had_conflict_errors (?tr ! 0) \<longleftrightarrow>
        (\<exists>f \<in> set (at_files (?tr ! 0)).
           task_result env_forbidden (at_upload_path (?tr ! 0)) f = Some (False, Some ''403'') \<or>
           task_result env_forbidden (at_upload_path (?tr ! 0)) f = Some (False, Some ''409''))"
    and nx: "Suc 0 < length ?tr \<longleftrightarrow>
        \<not> at_success (?tr ! 0) \<and> at_had_conflict_errors (?tr ! 0) \<and> (0::nat) < 4"
    by blast+
  have c: "at_had_conflict_errors (?tr ! 0)" using cf f r by blast
  have n: "\<not> at_success (?tr ! 0)" using ok f r by force
  show ?thesis using v c n nx by simp
qed

text \<open>
  Counterexample to C1 as it was stated (a 403 is terminal, the submission fails at
  once): the manifest upload at version 0 fails with the code 403, and the scheduler
  goes on to version 1, where the submission succeeds.
\<close>

theorem forbidden_starts_new_attempt:
  "task_result env_forbidden ''sprint/task1'' ''manifest.json'' = Some (False, Some ''403'') \<and>
   initial_attempt_version manifest_new = Inr 0 \<and>
   result (upload_attempts env_forbidden ''sprint'' ''task1'' 0 0 0
             (get_file_list_for_upload env_forbidden 0) (Some (JObj manifest_new)) None)
     = Upload_successful ''sprint/task1_v1'' \<and>
   map at_version (attempts (upload_attempts env_forbidden ''sprint'' ''task1'' 0 0 0
             (get_file_list_for_upload env_forbidden 0) (Some (JObj manifest_new)) None))
     = [0, 1]"
  by code_simp

text \<open>
  Claim C4. When the manifest records no version, every file of the batch fails with
  the code 409 at the path of version 0 and every file succeeds at the path of version
  1, the submission succeeds, the final upload path is the one with the suffix
  \<^verbatim>\<open>_v1\<close>, the attempts made are those of versions 0 and 1, and the manifest file
  then records 1 as \<^verbatim>\<open>last_submission_version\<close>.
\<close>

theorem conflict_then_success:
  assumes "dict_get manifest ''last_submission_version'' = None"
    and "\<forall>f \<in> set (get_file_list_for_upload e 0).
           task_result e (sf @ ''/'' @ tid) f = Some (False, Some ''409'')"
    and "\<forall>f \<in> set (get_file_list_for_upload e 1).
           task_result e (sf @ ''/'' @ tid @ ''_v1'') f = Some (True, None)"
  shows "\<exists>s. submit_uploads e sf tid manifest (Some (JObj m)) = Inr s \<and>
     result s = Upload_successful (sf @ ''/'' @ tid @ ''_v1'') \<and>
     final_version s = Some 1 \<and>
     manifest_field (manifest_file s) ''last_submission_version'' = Some (JInt 1) \<and>
     map at_version (attempts s) = [0, 1]"
proof -
  let ?f0 = "get_file_list_for_upload e 0"
  let ?f1 = "get_file_list_for_upload e 1"
  let ?mf = "Some (JObj m)"
  let ?e0 = "attempt_entry_of e sf tid 0 ?f0 ?mf"
  let ?e1 = "attempt_entry_of e sf tid 1 ?f1 ?mf"
  have p0: "get_upload_path_from_version sf tid 0 = sf @ ''/'' @ tid"
    by (simp add: get_upload_path_from_version_def)
  have p1: "get_upload_path_from_version sf tid 1 = sf @ ''/'' @ tid @ ''_v1''"
    by (simp add: get_upload_path_from_version_def str_int_1)
  have ne0: "?f0 \<noteq> []" and ne1: "?f1 \<noteq> []"
    by (simp_all add: get_file_list_for_upload_def)
  have s0: "\<not> at_success ?e0"
    using assms(2) ne0
    by (cases ?f0) (simp_all add: attempt_entry_of_fields p0 ok_result_def)
  have c0: "at_had_conflict_errors ?e0"
    using assms(2) ne0
    by (cases ?f0) (simp_all add: attempt_entry_of_fields p0 conflict_result_def)
  have "filter (\<lambda>f. ok_result (task_result e (sf @ ''/'' @ tid) f)) ?f0 = []"
    using assms(2) by (simp add: filter_empty_conv ok_result_def)
  then have u0: "at_uploaded_count ?e0 = 0"
    by (simp add: attempt_entry_of_fields p0)
  then have m0: "at_manifest_file ?e0 = ?mf"
    by (simp add: attempt_entry_of_fields(7))
  have r0: "retries ?e0 0"
    using s0 c0 by (simp add: retries_def max_attempts_def)
  have s1: "at_success ?e1"
    using assms(3) by (simp add: attempt_entry_of_fields p1 list_all_iff ok_result_def)
  have "filter (\<lambda>f. ok_result (task_result e (sf @ ''/'' @ tid @ ''_v1'') f)) ?f1 = ?f1"
    using assms(3) by (simp add: filter_id_conv ok_result_def)
  then have u1: "at_uploaded_count ?e1 > 0"
    using ne1 by (simp add: attempt_entry_of_fields p1)
  then have m1: "at_manifest_file ?e1 = snd (update_manifest_version ?mf 1)"
    by (simp add: attempt_entry_of_fields(7))
  have r1: "\<not> retries ?e1 1"
    using s1 by (simp add: retries_def)
  have a0: "(0::nat) < max_attempts" and a1: "(1::nat) < max_attempts"
    by (simp_all add: max_attempts_def)
  let ?s1 = "upload_attempts e sf tid 1 1 1 ?f1 ?mf None"
  have run1: "?s1 = \<lparr>result = Upload_successful (sf @ ''/'' @ tid @ ''_v1''),
                     final_version = Some 1,
                     manifest_file = snd (update_manifest_version ?mf 1),
                     attempts = [?e1]\<rparr>"
    using upload_attempts_stop [OF a1 r1, of 1 None] s1 u1 m1
    by (simp add: Let_def attempt_entry_of_fields(1) p1)
  let ?s0 = "upload_attempts e sf tid 0 0 0 ?f0 ?mf None"
  have run0: "?s0 = ?s1\<lparr>attempts := ?e0 # attempts ?s1\<rparr>"
    using upload_attempts_retry [OF a0 r0, of 0 None] u0 m0
    by (simp add: Let_def)
  have sub: "submit_uploads e sf tid manifest ?mf = Inr ?s0"
    using assms(1) by (simp add: submit_uploads_def initial_attempt_version_def)
  have full: "?s0 = \<lparr>result = Upload_successful (sf @ ''/'' @ tid @ ''_v1''),
                     final_version = Some 1,
                     manifest_file = snd (update_manifest_version ?mf 1),
                     attempts = [?e0, ?e1]\<rparr>"
    unfolding run0 run1 by simp
  have "result ?s0 = Upload_successful (sf @ ''/'' @ tid @ ''_v1'')"
    "final_version ?s0 = Some 1"
    "manifest_field (manifest_file ?s0) ''last_submission_version'' = Some (JInt 1)"
    "map at_version (attempts ?s0) = [0, 1]"
    by (simp_all add: full manifest_field_update_same attempt_entry_of_fields(2))
  with sub show ?thesis by simp
qed

text \<open>Witness for C4: the store where the paths of version 0 are taken.\<close>

theorem conflict_then_success_witness:
  "\<exists>s. submit_uploads env_conflict ''sprint'' ''task1'' manifest_new (Some (JObj manifest_new)) = Inr s \<and>
     result s = Upload_successful ''sprint/task1_v1'' \<and>
     final_version s = Some 1 \<and>
     manifest_field (manifest_file s) ''last_submission_version'' = Some (JInt 1) \<and>
     map at_version (attempts s) = [0, 1]"
proof -
  have h1: "dict_get manifest_new ''last_submission_version'' = None"
    by (simp add: dict_get_def manifest_new_def)
  have h2: "\<forall>f \<in> set (get_file_list_for_upload env_conflict 0).
       task_result env_conflict (''sprint'' @ ''/'' @ ''task1'') f = Some (False, Some ''409'')"
    by code_simp
  have h3: "\<forall>f \<in> set (get_file_list_for_upload env_conflict 1).
       task_result env_conflict (''sprint'' @ ''/'' @ ''task1'' @ ''_v1'') f = Some (True, None)"
    by code_simp
  from conflict_then_success [OF h1 h2 h3, of manifest_new] show ?thesis by simp
qed

text \<open>
  Claim C5. With a manifest file that is a JSON object, every attempt in which at least
  one task succeeded leaves the manifest file with the version of that attempt as
  \<^verbatim>\<open>last_submission_version\<close>, whether or not the attempt as a whole succeeded. The
  count that decides it is the number of tasks of the attempt that succeeded.
\<close>

theorem partial_success_saves_version:
  assumes "en \<in> set (attempts (upload_attempts e sf tid a v k files (Some (JObj m)) fv))"
    and "at_uploaded_count en > 0"
  shows "manifest_field (at_manifest_file en) ''last_submission_version''
           = Some (JInt (at_version en)) \<and>
         at_uploaded_count en
           = length (filter (\<lambda>f. ok_result (task_result e (at_upload_path en) f)) (at_files en))"
proof -
  from attempts_entries_object [OF assms(1)] obtain m0
    where en: "en = attempt_entry_of e sf tid (at_version en) (at_files en) (Some (JObj m0))" ..
  have "at_manifest_file en = snd (update_manifest_version (Some (JObj m0)) (at_version en))"
    using attempt_entry_of_fields(7) [of e sf tid "at_version en" "at_files en" "Some (JObj m0)"]
      en assms(2) by simp
  then have a: "manifest_field (at_manifest_file en) ''last_submission_version''
                  = Some (JInt (at_version en))"
    by (simp add: manifest_field_update_same)
  have b: "at_uploaded_count en
      = length (filter (\<lambda>f. ok_result (task_result e (at_upload_path en) f)) (at_files en))"
    using attempt_entry_of_fields(1,6) [of e sf tid "at_version en" "at_files en" "Some (JObj m0)"] en
    by simp
  show ?thesis using a b by simp
qed

text \<open>
  Witness for C5: two of three files are uploaded at version 3, the third fails after
  three network errors. The submission fails, and the manifest file records version 3.
\<close>

theorem partial_success_saves_version_witness:
  "result (upload_attempts env_partial ''sprint'' ''task1'' 0 3 0
      (get_file_list_for_upload env_partial 0) (Some (JObj manifest_v2)) None) = Failed_non_conflict \<and>
   at_uploaded_count (hd (attempts (upload_attempts env_partial ''sprint'' ''task1'' 0 3 0
      (get_file_list_for_upload env_partial 0) (Some (JObj manifest_v2)) None))) = 2 \<and>
   manifest_field (at_manifest_file (hd (attempts (upload_attempts env_partial ''sprint'' ''task1'' 0 3 0
      (get_file_list_for_upload env_partial 0) (Some (JObj manifest_v2)) None))))
     ''last_submission_version'' = Some (JInt 3)"
proof -
  let ?s = "upload_attempts env_partial ''sprint'' ''task1'' 0 3 0
      (get_file_list_for_upload env_partial 0) (Some (JObj manifest_v2)) None"
  have mem: "hd (attempts ?s) \<in> set (attempts ?s)"
    by (rule hd_in_set) (simp add: attempts_nonempty max_attempts_def)
  have r: "result ?s = Failed_non_conflict" by code_simp
  have u: "at_uploaded_count (hd (attempts ?s)) = 2" by code_simp
  have v: "at_version (hd (attempts ?s)) = 3" by code_simp
  have pos: "at_uploaded_count (hd (attempts ?s)) > 0" using u by simp
  from partial_success_saves_version [OF mem pos] r u v show ?thesis by simp
qed

section \<open>Properties of the validation\<close>

lemma collect_missing_eq:
  "collect_missing present ps missing = missing @ filter (\<lambda>p. \<not> present p) ps"
  by (induction ps arbitrary: missing) auto

lemma check_lane_logs_mandatory:
  "check_lane_logs d lane =
     (if mandatory_logs d lane = [] then Inl (No_mandatory_session_log lane)
      else if 1 < length (mandatory_logs d lane)
      then Inl (Several_mandatory_session_logs (length (mandatory_logs d lane)) lane)
      else Inr ())"
  by (simp add: check_lane_logs_def mandatory_logs_def Let_def)

lemma validate_after_guards:
  assumes "is_file d ''manifest.json''" and "is_dir d ''snapshots''"
  shows "validate_experiment_files d =
     (case (if path_exists d ''logs''
            then (case check_lane_logs d ''model_a'' of
                    Inl err \<Rightarrow> Inl err
                  | Inr u \<Rightarrow> check_lane_logs d ''model_b'')
            else Inr ()) of
        Inl err \<Rightarrow> Inl err
      | Inr u \<Rightarrow>
          (if filter (\<lambda>p. \<not> is_file d p) required_files
                @ filter (\<lambda>p. \<not> is_dir d p) required_dirs \<noteq> []
           then Inl (Missing_required_items
                  (filter (\<lambda>p. \<not> is_file d p) required_files
                     @ filter (\<lambda>p. \<not> is_dir d p) required_dirs))
           else Inr True))"
  using assms unfolding validate_experiment_files_def Let_def
  by (auto simp: collect_missing_eq split: sum.splits)

lemma validate_logs_pass:
  assumes "is_file d ''manifest.json''" and "is_dir d ''snapshots''" and "logs_pass d"
  shows "(absent_required_items d = {} \<longrightarrow> validate_experiment_files d = Inr True) \<and>
         (absent_required_items d \<noteq> {} \<longrightarrow>
            (\<exists>items. validate_experiment_files d = Inl (Missing_required_items items) \<and>
               set items = absent_required_items d \<and> distinct items))"
proof -
  let ?mf = "filter (\<lambda>p. \<not> is_file d p) required_files"
  let ?md = "filter (\<lambda>p. \<not> is_dir d p) required_dirs"
  have logs: "(if path_exists d ''logs''
               then (case check_lane_logs d ''model_a'' of
                       Inl err \<Rightarrow> Inl err
                     | Inr u \<Rightarrow> check_lane_logs d ''model_b'')
               else Inr ()) = Inr ()"
    using assms(3) by (simp add: logs_pass_def)
  have v: "validate_experiment_files d =
             (if ?mf @ ?md \<noteq> [] then Inl (Missing_required_items (?mf @ ?md)) else Inr True)"
    unfolding validate_after_guards [OF assms(1,2)] logs by simp
  have s: "set (?mf @ ?md) = absent_required_items d"
    by (auto simp: absent_required_items_def)
  have dis: "distinct (?mf @ ?md)"
    by (auto simp: required_files_def required_dirs_def)
  show ?thesis
  proof (cases "?mf @ ?md = []")
    case True
    then show ?thesis using v s by (metis set_empty)
  next
    case False
    then show ?thesis using v s dis by (metis set_empty)
  qed
qed

text \<open>
  Claim C9, as amended. A missing \<^verbatim>\<open>manifest.json\<close> is reported on its own; with the
  manifest, a missing \<^verbatim>\<open>snapshots\<close> directory is reported on its own. With both, and
  when \<^verbatim>\<open>logs\<close> exists, a lane that has no mandatory session log, or more than one, is
  reported on its own, lane A before lane B. When none of these reports is made (the
  checks of the session logs pass), the validation succeeds if no required file or
  directory is absent, and otherwise fails with one report that lists every absent
  required item, each once.
\<close>

theorem validation_report_complete:
  "(\<not> is_file d ''manifest.json'' \<longrightarrow>
      validate_experiment_files d = Inl Manifest_not_found) \<and>
   (is_file d ''manifest.json'' \<and> \<not> is_dir d ''snapshots'' \<longrightarrow>
      validate_experiment_files d = Inl Snapshots_not_found) \<and>
   (is_file d ''manifest.json'' \<and> is_dir d ''snapshots'' \<and> path_exists d ''logs'' \<longrightarrow>
      (mandatory_logs d ''model_a'' = [] \<longrightarrow>
         validate_experiment_files d = Inl (No_mandatory_session_log ''model_a'')) \<and>
      (1 < length (mandatory_logs d ''model_a'') \<longrightarrow>
         validate_experiment_files d
           = Inl (Several_mandatory_session_logs
                    (length (mandatory_logs d ''model_a'')) ''model_a'')) \<and>
      (length (mandatory_logs d ''model_a'') = 1 \<and> mandatory_logs d ''model_b'' = [] \<longrightarrow>
         validate_experiment_files d = Inl (No_mandatory_session_log ''model_b'')) \<and>
      (length (mandatory_logs d ''model_a'') = 1 \<and>
       1 < length (mandatory_logs d ''model_b'') \<longrightarrow>
         validate_experiment_files d
           = Inl (Several_mandatory_session_logs
                    (length (mandatory_logs d ''model_b'')) ''model_b''))) \<and>
   (is_file d ''manifest.json'' \<and> is_dir d ''snapshots'' \<and> logs_pass d \<longrightarrow>
      (absent_required_items d = {} \<longrightarrow> validate_experiment_files d = Inr True) \<and>
      (absent_required_items d \<noteq> {} \<longrightarrow>
         (\<exists>items. validate_experiment_files d = Inl (Missing_required_items items) \<and>
            set items = absent_required_items d \<and> distinct items)))"
proof (intro conjI impI)
  assume "\<not> is_file d ''manifest.json''"
  then show "validate_experiment_files d = Inl Manifest_not_found"
    by (simp add: validate_experiment_files_def)
next
  assume "is_file d ''manifest.json'' \<and> \<not> is_dir d ''snapshots''"
  then show "validate_experiment_files d = Inl Snapshots_not_found"
    by (simp add: validate_experiment_files_def)
next
  assume g: "is_file d ''manifest.json'' \<and> is_dir d ''snapshots'' \<and> path_exists d ''logs''"
    and a: "mandatory_logs d ''model_a'' = []"
  from g have v: "validate_experiment_files d =
      (case (case check_lane_logs d ''model_a'' of
               Inl err \<Rightarrow> Inl err
             | Inr u \<Rightarrow> check_lane_logs d ''model_b'') of
         Inl err \<Rightarrow> Inl err
       | Inr u \<Rightarrow>
           (if filter (\<lambda>p. \<not> is_file d p) required_files
                 @ filter (\<lambda>p. \<not> is_dir d p) required_dirs \<noteq> []
            then Inl (Missing_required_items
                   (filter (\<lambda>p. \<not> is_file d p) required_files
                      @ filter (\<lambda>p. \<not> is_dir d p) required_dirs))
            else Inr True))"
    by (simp add: validate_after_guards)
  show "validate_experiment_files d = Inl (No_mandatory_session_log ''model_a'')"
    unfolding v by (simp add: check_lane_logs_mandatory a)
next
  assume g: "is_file d ''manifest.json'' \<and> is_dir d ''snapshots'' \<and> path_exists d ''logs''"
    and a: "1 < length (mandatory_logs d ''model_a'')"
  from a have ne: "mandatory_logs d ''model_a'' \<noteq> []"
    by auto
  from g have v: "validate_experiment_files d =
      (case (case check_lane_logs d ''model_a'' of
               Inl err \<Rightarrow> Inl err
             | Inr u \<Rightarrow> check_lane_logs d ''model_b'') of
         Inl err \<Rightarrow> Inl err
       | Inr u \<Rightarrow>
           (if filter (\<lambda>p. \<not> is_file d p) required_files
                 @ filter (\<lambda>p. \<not> is_dir d p) required_dirs \<noteq> []
            then Inl (Missing_required_items
                   (filter (\<lambda>p. \<not> is_file d p) required_files
                      @ filter (\<lambda>p. \<not> is_dir d p) required_dirs))
            else Inr True))"
    by (simp add: validate_after_guards)
  show "validate_experiment_files d
      = Inl (Several_mandatory_session_logs (length (mandatory_logs d ''model_a'')) ''model_a'')"
    unfolding v using a ne by (simp add: check_lane_logs_mandatory)
next
  assume g: "is_file d ''manifest.json'' \<and> is_dir d ''snapshots'' \<and> path_exists d ''logs''"
    and ab: "length (mandatory_logs d ''model_a'') = 1 \<and> mandatory_logs d ''model_b'' = []"
  from ab have ne: "mandatory_logs d ''model_a'' \<noteq> []"
    by auto
  from g have v: "validate_experiment_files d =
      (case (case check_lane_logs d ''model_a'' of
               Inl err \<Rightarrow> Inl err
             | Inr u \<Rightarrow> check_lane_logs d ''model_b'') of
         Inl err \<Rightarrow> Inl err
       | Inr u \<Rightarrow>
           (if filter (\<lambda>p. \<not> is_file d p) required_files
                 @ filter (\<lambda>p. \<not> is_dir d p) required_dirs \<noteq> []
            then Inl (Missing_required_items
                   (filter (\<lambda>p. \<not> is_file d p) required_files
                      @ filter (\<lambda>p. \<not> is_dir d p) required_dirs))
            else Inr True))"
    by (simp add: validate_after_guards)
  show "validate_experiment_files d = Inl (No_mandatory_session_log ''model_b'')"
    unfolding v using ab ne by (simp add: check_lane_logs_mandatory)
next
  assume g: "is_file d ''manifest.json'' \<and> is_dir d ''snapshots'' \<and> path_exists d ''logs''"
    and ab: "length (mandatory_logs d ''model_a'') = 1 \<and>
             1 < length (mandatory_logs d ''model_b'')"
  from ab have ne: "mandatory_logs d ''model_a'' \<noteq> []" "mandatory_logs d ''model_b'' \<noteq> []"
    by auto
  from g have v: "validate_experiment_files d =
      (case (case check_lane_logs d ''model_a'' of
               Inl err \<Rightarrow> Inl err
             | Inr u \<Rightarrow> check_lane_logs d ''model_b'') of
         Inl err \<Rightarrow> Inl err
       | Inr u \<Rightarrow>
           (if filter (\<lambda>p. \<not> is_file d p) required_files
                 @ filter (\<lambda>p. \<not> is_dir d p) required_dirs \<noteq> []
            then Inl (Missing_required_items
                   (filter (\<lambda>p. \<not> is_file d p) required_files
                      @ filter (\<lambda>p. \<not> is_dir d p) required_dirs))
            else Inr True))"
    by (simp add: validate_after_guards)
  show "validate_experiment_files d
      = Inl (Several_mandatory_session_logs (length (mandatory_logs d ''model_b'')) ''model_b'')"
    unfolding v using ab ne by (simp add: check_lane_logs_mandatory)
next
  assume g: "is_file d ''manifest.json'' \<and> is_dir d ''snapshots'' \<and> logs_pass d"
    and e: "absent_required_items d = {}"
  from g have "is_file d ''manifest.json''" "is_dir d ''snapshots''" "logs_pass d"
    by simp_all
  from validate_logs_pass [OF this] e show "validate_experiment_files d = Inr True"
    by simp
next
  assume g: "is_file d ''manifest.json'' \<and> is_dir d ''snapshots'' \<and> logs_pass d"
    and e: "absent_required_items d \<noteq> {}"
  from g have "is_file d ''manifest.json''" "is_dir d ''snapshots''" "logs_pass d"
    by simp_all
  from validate_logs_pass [OF this] e
  show "\<exists>items. validate_experiment_files d = Inl (Missing_required_items items) \<and>
          set items = absent_required_items d \<and> distinct items"
    by simp
qed

text \<open>
  Witness for C9, as amended, with one directory for each case: nothing exists; only
  the manifest exists; lane A has no session log; lane A has two; lane B has only a raw
  log; lane B has two session logs and a raw one; everything is in place; and a
  directory without \<^verbatim>\<open>model_b\<close> and without the two settings files, for which the report
  lists the three of them.
\<close>

theorem validation_report_complete_witness:
  "validate_experiment_files dir_empty = Inl Manifest_not_found \<and>
   validate_experiment_files dir_no_snapshots = Inl Snapshots_not_found \<and>
   validate_experiment_files dir_no_log_a = Inl (No_mandatory_session_log ''model_a'') \<and>
   validate_experiment_files dir_two_logs_a
     = Inl (Several_mandatory_session_logs 2 ''model_a'') \<and>
   validate_experiment_files dir_no_log_b = Inl (No_mandatory_session_log ''model_b'') \<and>
   validate_experiment_files dir_two_logs_b
     = Inl (Several_mandatory_session_logs 2 ''model_b'') \<and>
   validate_experiment_files dir_complete = Inr True \<and>
   validate_experiment_files dir_no_model_b
     = Inl (Missing_required_items
         [''model_a/.claude/settings.local.json'', ''model_b/.claude/settings.local.json'',
          ''model_b''])"
proof -
  have c1: "validate_experiment_files dir_empty = Inl Manifest_not_found"
  proof -
    have "\<not> is_file dir_empty ''manifest.json''" by code_simp
    with validation_report_complete [of dir_empty] show ?thesis by simp
  qed
  have c2: "validate_experiment_files dir_no_snapshots = Inl Snapshots_not_found"
  proof -
    have "is_file dir_no_snapshots ''manifest.json'' \<and> \<not> is_dir dir_no_snapshots ''snapshots''"
      by code_simp
    with validation_report_complete [of dir_no_snapshots] show ?thesis by simp
  qed
  have c3: "validate_experiment_files dir_no_log_a = Inl (No_mandatory_session_log ''model_a'')"
  proof -
    have "is_file dir_no_log_a ''manifest.json'' \<and> is_dir dir_no_log_a ''snapshots'' \<and>
          path_exists dir_no_log_a ''logs''"
      by code_simp
    moreover have "mandatory_logs dir_no_log_a ''model_a'' = []"
      by code_simp
    ultimately show ?thesis
      using validation_report_complete [of dir_no_log_a] by simp
  qed
  have c4: "validate_experiment_files dir_two_logs_a
      = Inl (Several_mandatory_session_logs 2 ''model_a'')"
  proof -
    have "is_file dir_two_logs_a ''manifest.json'' \<and> is_dir dir_two_logs_a ''snapshots'' \<and>
          path_exists dir_two_logs_a ''logs''"
      by code_simp
    moreover have "mandatory_logs dir_two_logs_a ''model_a''
        = [''session_a1.jsonl'', ''session_a2.jsonl'']"
      by code_simp
    ultimately show ?thesis
      using validation_report_complete [of dir_two_logs_a] by simp
  qed
  have c5: "validate_experiment_files dir_no_log_b = Inl (No_mandatory_session_log ''model_b'')"
  proof -
    have "is_file dir_no_log_b ''manifest.json'' \<and> is_dir dir_no_log_b ''snapshots'' \<and>
          path_exists dir_no_log_b ''logs''"
      by code_simp
    moreover have "mandatory_logs dir_no_log_b ''model_a'' = [''session_a1.jsonl'']"
      by code_simp
    moreover have "mandatory_logs dir_no_log_b ''model_b'' = []"
      by code_simp
    ultimately show ?thesis
      using validation_report_complete [of dir_no_log_b] by simp
  qed
  have c6: "validate_experiment_files dir_two_logs_b
      = Inl (Several_mandatory_session_logs 2 ''model_b'')"
  proof -
    have "is_file dir_two_logs_b ''manifest.json'' \<and> is_dir dir_two_logs_b ''snapshots'' \<and>
          path_exists dir_two_logs_b ''logs''"
      by code_simp
    moreover have "mandatory_logs dir_two_logs_b ''model_a'' = [''session_a1.jsonl'']"
      by code_simp
    moreover have "mandatory_logs dir_two_logs_b ''model_b''
        = [''session_b1.jsonl'', ''session_b2.jsonl'']"
      by code_simp
    ultimately show ?thesis
      using validation_report_complete [of dir_two_logs_b] by simp
  qed
  have c7: "validate_experiment_files dir_complete = Inr True"
  proof -
    have "is_file dir_complete ''manifest.json'' \<and> is_dir dir_complete ''snapshots'' \<and>
          logs_pass dir_complete"
      by code_simp
    moreover have "absent_required_items dir_complete = {}"
      by (auto simp: absent_required_items_def required_files_def required_dirs_def
            is_file_def is_dir_def dir_complete_def all_required_entries_def)
    ultimately show ?thesis
      using validation_report_complete [of dir_complete] by simp
  qed
  have c8: "validate_experiment_files dir_no_model_b
     = Inl (Missing_required_items
         [''model_a/.claude/settings.local.json'', ''model_b/.claude/settings.local.json'',
          ''model_b''])"
  proof -
    have h: "is_file dir_no_model_b ''manifest.json'' \<and> is_dir dir_no_model_b ''snapshots'' \<and>
          logs_pass dir_no_model_b"
      by code_simp
    have a: "absent_required_items dir_no_model_b =
        {''model_a/.claude/settings.local.json'', ''model_b/.claude/settings.local.json'',
         ''model_b''}"
      by (auto simp: absent_required_items_def required_files_def required_dirs_def
            is_file_def is_dir_def dir_no_model_b_def)
    have "validate_experiment_files dir_no_model_b
       = Inl (Missing_required_items
           [''model_a/.claude/settings.local.json'', ''model_b/.claude/settings.local.json'',
            ''model_b''])" by code_simp
    with validation_report_complete [of dir_no_model_b] h a show ?thesis by simp
  qed
  show ?thesis
    using c1 c2 c3 c4 c5 c6 c7 c8 by simp
qed

text \<open>
  Counterexample to C9 as it was stated (every failure for an absent required item
  lists all absent items). With no session log for lane A the validation ends with that
  message alone, although a required settings file is absent too; in an empty directory
  it ends with "manifest.json not found", although all seven required items are absent.
\<close>

theorem early_exit_hides_missing_items:
  "validate_experiment_files dir_no_log_a = Inl (No_mandatory_session_log ''model_a'') \<and>
   collect_missing (is_file dir_no_log_a) required_files []
     = [''model_b/.claude/settings.local.json''] \<and>
   validate_experiment_files dir_empty = Inl Manifest_not_found \<and>
   collect_missing (is_file dir_empty) required_files []
     @ collect_missing (is_dir dir_empty) required_dirs []
     = [''manifest.json'', ''model_a/.claude/settings.local.json'',
        ''model_b/.claude/settings.local.json'', ''model_a'', ''model_b'', ''logs'',
        ''snapshots'']"
  by code_simp

section \<open>Properties of the merge\<close>

lemma sort_by_datetime_Inr:
  assumes "sort_by_datetime k xs = Inr ys"
  shows "ys = sort_key (\<lambda>x. ordinal (k x)) xs"
    and "\<forall>x \<in> set xs. \<forall>y \<in> set xs. is_aware (k x) = is_aware (k y)"
  using assms by (auto simp: sort_by_datetime_def list_ex_iff split: if_splits)

lemma datetime_le_same_kind:
  "is_aware a = is_aware b \<Longrightarrow> datetime_le a b = Some (ordinal a \<le> ordinal b)"
  by (cases a; cases b) auto

lemma datetime_eq_iff: "a = b \<longleftrightarrow> is_aware a = is_aware b \<and> ordinal a = ordinal b"
  by (cases a; cases b) auto

text \<open>When the sort returns, its result is in order for the comparison of Python.\<close>

lemma sort_by_datetime_sorted:
  assumes "sort_by_datetime k xs = Inr ys"
  shows "sorted_wrt (\<lambda>a b. datetime_le (k a) (k b) = Some True) ys"
proof -
  have ys: "ys = sort_key (\<lambda>x. ordinal (k x)) xs"
    by (rule sort_by_datetime_Inr(1) [OF assms])
  have kind: "\<forall>x \<in> set xs. \<forall>y \<in> set xs. is_aware (k x) = is_aware (k y)"
    by (rule sort_by_datetime_Inr(2) [OF assms])
  have "sorted (map (\<lambda>x. ordinal (k x)) ys)"
    by (simp add: ys)
  then have sw: "sorted_wrt (\<lambda>a b. ordinal (k a) \<le> ordinal (k b)) ys"
    by (simp only: sorted_map)
  have set_eq: "set ys = set xs"
    by (simp add: ys)
  have imp: "datetime_le (k x) (k y) = Some True"
    if "x \<in> set ys" "y \<in> set ys" "ordinal (k x) \<le> ordinal (k y)" for x y
  proof -
    have "is_aware (k x) = is_aware (k y)"
      using that(1,2) kind set_eq by blast
    then show ?thesis
      using that(3) by (simp add: datetime_le_same_kind)
  qed
  show ?thesis
    by (rule sorted_wrt_mono_rel [OF imp sw])
qed

text \<open>The sort keeps the elements with the same key in the order they had.\<close>

lemma sort_by_datetime_stable:
  assumes "sort_by_datetime k xs = Inr ys"
  shows "filter (\<lambda>x. k x = t) ys = filter (\<lambda>x. k x = t) xs"
proof -
  have ys: "ys = sort_key (\<lambda>x. ordinal (k x)) xs"
    by (rule sort_by_datetime_Inr(1) [OF assms])
  have narrow: "filter (\<lambda>x. k x = t) zs
      = filter (\<lambda>x. k x = t) (filter (\<lambda>x. ordinal (k x) = ordinal t) zs)" for zs
    by (induction zs) auto
  have "filter (\<lambda>x. ordinal (k x) = ordinal t) ys
      = filter (\<lambda>x. ordinal (k x) = ordinal t) xs"
    unfolding ys by (rule sort_key_stable)
  then show ?thesis
    using narrow [of ys] narrow [of xs] by simp
qed

lemma sort_by_datetime_mset:
  assumes "sort_by_datetime k xs = Inr ys"
  shows "mset ys = mset xs"
  using sort_by_datetime_Inr(1) [OF assms] by simp

text \<open>The sort returns when every key is aware, which the minimum is.\<close>

lemma sort_by_datetime_all_aware:
  "\<forall>x \<in> set xs. is_aware (k x) \<Longrightarrow>
   sort_by_datetime k xs = Inr (sort_key (\<lambda>x. ordinal (k x)) xs)"
  by (simp add: sort_by_datetime_def list_ex_iff)

text \<open>What the classification of a file keeps.\<close>

lemma extract_loop_messages:
  "extract_loop (read_session_events f) data = Inr sd \<Longrightarrow>
   messages sd = messages data @ file_messages f"
  by (induction f arbitrary: data rule: file_messages.induct)
     (auto simp: classify_event_def Let_def message_types_def split: if_splits)

lemma session_end_classify_event:
  "session_end (classify_event event data) =
     (if dict_get event ''type'' = Some (JStr ''session_end'') then Some event
      else session_end data)"
  by (simp add: classify_event_def Let_def)

lemma extract_loop_session_end:
  "extract_loop (read_session_events f) data = Inr sd \<Longrightarrow>
   session_end sd =
     (case last_event ''session_end'' f of None \<Rightarrow> session_end data | Some e \<Rightarrow> Some e)"
proof (induction f arbitrary: data)
  case Nil
  then show ?case by simp
next
  case (Cons l f)
  show ?case
  proof (cases l)
    case Blank
    then show ?thesis using Cons by simp
  next
    case Malformed
    then show ?thesis using Cons by simp
  next
    case (Parsed j)
    show ?thesis
    proof (cases j)
      case (JObj event)
      with Parsed Cons.prems
      have "extract_loop (read_session_events f) (classify_event event data) = Inr sd"
        by simp
      from Cons.IH [OF this] show ?thesis
        unfolding Parsed JObj
        by (simp add: session_end_classify_event split: option.splits)
    qed (use Parsed Cons.prems in simp_all)
  qed
qed

lemma extract_all_fields:
  "extract_all pfs = Inr sds \<Longrightarrow>
   map messages sds = map file_messages pfs \<and>
   map session_end sds = map (last_event ''session_end'') pfs"
proof (induction pfs arbitrary: sds)
  case Nil
  then show ?case by simp
next
  case (Cons pf pfs)
  from Cons.prems obtain sd
    where sd: "extract_session_data (read_session_events pf) = Inr sd"
    by (cases "extract_session_data (read_session_events pf)") simp_all
  from Cons.prems sd obtain rest
    where rest: "extract_all pfs = Inr rest"
    by (cases "extract_all pfs") simp_all
  from Cons.prems sd rest have sds: "sds = sd # rest"
    by simp
  let ?d0 = "\<lparr>session_start = None, session_end = None, session_summary = None,
               messages = [], other_events = []\<rparr>"
  have loop: "extract_loop (read_session_events pf) ?d0 = Inr sd"
    using sd by (simp add: extract_session_data_def)
  have m: "messages sd = file_messages pf"
    using extract_loop_messages [OF loop] by simp
  have e: "session_end sd = last_event ''session_end'' pf"
    using extract_loop_session_end [OF loop] by (cases "last_event ''session_end'' pf") simp_all
  show ?case
    using Cons.IH [OF rest] m e by (simp add: sds)
qed

lemma collect_messages_files:
  assumes "extract_all pfs = Inr sds"
  shows "collect_messages mid sds = messages_in_file_order mid pfs"
proof -
  have eq: "map messages sds = map file_messages pfs"
    using assms by (simp add: extract_all_fields)
  have "map (\<lambda>sd. map (tag_message mid) (messages sd)) sds
      = map (map (tag_message mid)) (map messages sds)"
    by simp
  also have "\<dots> = map (map (tag_message mid)) (map file_messages pfs)"
    by (simp only: eq)
  also have "\<dots> = map (\<lambda>f. map (tag_message mid) (file_messages f)) pfs"
    by simp
  finally show ?thesis
    by (simp add: collect_messages_def messages_in_file_order_def)
qed

lemma copy_ab_metadata_other:
  "k \<notin> set keys \<Longrightarrow> dict_get (copy_ab_metadata fs keys m) k = dict_get m k"
proof (induction keys arbitrary: m)
  case Nil
  then show ?case by simp
next
  case (Cons key keys)
  then have k: "k \<noteq> key" and rest: "k \<notin> set keys"
    by simp_all
  show ?case
  proof (cases "dict_get fs key")
    case None
    then show ?thesis using Cons.IH [OF rest] by simp
  next
    case (Some v)
    then show ?thesis
      using Cons.IH [OF rest] k by (simp add: dict_get_dict_set_other)
  qed
qed

lemma merged_end_timestamp_field:
  "dict_get (copy_ab_metadata fs ab_keys ((''type'', t) # (''timestamp'', v) # kvs))
     ''timestamp'' = Some v"
proof -
  have "''timestamp'' \<notin> set ab_keys"
    by (simp add: ab_keys_def)
  then show ?thesis
    by (simp add: copy_ab_metadata_other) (simp add: dict_get_def)
qed

text \<open>What a result of \<^verbatim>\<open>merge_sessions\<close> with a merged log was made from.\<close>

lemma merge_sessions_Some:
  assumes "merge_sessions fromiso now mid files = Inr (Some out)"
  shows "\<exists>pfs sds.
     find_session_files fromiso files = Inr pfs \<and> 2 \<le> length pfs \<and>
     extract_all pfs = Inr sds \<and>
     sort_by_datetime (message_time fromiso) (collect_messages mid sds)
       = Inr (all_messages out) \<and>
     dict_get (merged_end out) ''timestamp''
       = Some (dict_get_default (or_empty (session_end (last sds))) ''timestamp''
                 (JStr (now 2)))"
proof -
  from assms obtain pfs where pfs: "find_session_files fromiso files = Inr pfs"
    by (auto simp: merge_sessions_def split: sum.splits)
  from assms pfs have len: "2 \<le> length pfs"
    by (auto simp: merge_sessions_def split: if_splits)
  from assms pfs len obtain sds where sds: "extract_all pfs = Inr sds"
    by (auto simp: merge_sessions_def split: sum.splits)
  from assms pfs len sds obtain ids where ids: "merged_from_sessions sds = Inr ids"
    by (auto simp: merge_sessions_def Let_def split: sum.splits)
  from assms pfs len sds ids obtain msgs
    where msgs: "sort_by_datetime (message_time fromiso) (collect_messages mid sds) = Inr msgs"
    by (auto simp: merge_sessions_def Let_def split: sum.splits)
  from assms pfs len sds ids msgs
  have out: "all_messages out = msgs"
    "dict_get (merged_end out) ''timestamp''
       = Some (dict_get_default (or_empty (session_end (last sds))) ''timestamp''
                 (JStr (now 2)))"
    by (auto simp: merge_sessions_def Let_def merged_end_timestamp_field)
  show ?thesis
    using pfs len sds msgs out by simp
qed

lemma tag_message_ids:
  "dict_get (tag_message mid msg) ''session_id'' = Some (JStr mid)"
  "dict_get (tag_message mid msg) ''original_session_id''
     = Some (dict_get_default msg ''session_id'' (JStr ''unknown''))"
  by (simp_all add: tag_message_def dict_get_dict_set_same dict_get_dict_set_other)

lemma message_time_tag_message:
  "message_time fromiso (tag_message mid msg) = message_time fromiso msg"
  by (simp add: message_time_def tag_message_def dict_get_default_def
        dict_get_dict_set_other [unfolded dict_get_def])

text \<open>The two example files, merged: the model computes the log \<open>merged_ab\<close>.\<close>

lemma merge_sessions_example:
  "merge_sessions fromisoformat_basic clock ''merged-1'' [file_b, file_a] = Inr (Some merged_ab)"
  by code_simp

lemma find_session_files_example:
  "find_session_files fromisoformat_basic [file_b, file_a] = Inr [file_a, file_b]"
  by code_simp

text \<open>
  Claim C2. When \<^verbatim>\<open>merge_sessions\<close> writes a merged log, its message lines are in
  non-decreasing order of their parsed timestamps (a timestamp that is missing or does
  not parse counts as the minimum), and for every timestamp the messages with that
  timestamp stand in the order in which they were read: file after file in the sorted
  order of the files, line after line within a file. No message is lost or added.
\<close>

theorem merged_messages_sorted_stable:
  assumes "merge_sessions fromiso now mid files = Inr (Some out)"
  shows "\<exists>pfs. find_session_files fromiso files = Inr pfs \<and>
     sorted_wrt (\<lambda>a b. datetime_le (message_time fromiso a) (message_time fromiso b) = Some True)
       (all_messages out) \<and>
     (\<forall>t. filter (\<lambda>m. message_time fromiso m = t) (all_messages out)
           = filter (\<lambda>m. message_time fromiso m = t) (messages_in_file_order mid pfs)) \<and>
     mset (all_messages out) = mset (messages_in_file_order mid pfs)"
proof -
  from merge_sessions_Some [OF assms] obtain pfs sds
    where pfs: "find_session_files fromiso files = Inr pfs"
      and sds: "extract_all pfs = Inr sds"
      and srt: "sort_by_datetime (message_time fromiso) (collect_messages mid sds)
                  = Inr (all_messages out)"
    by blast
  have input: "collect_messages mid sds = messages_in_file_order mid pfs"
    by (rule collect_messages_files [OF sds])
  have a: "sorted_wrt
      (\<lambda>a b. datetime_le (message_time fromiso a) (message_time fromiso b) = Some True)
      (all_messages out)"
    by (rule sort_by_datetime_sorted [OF srt])
  have b: "filter (\<lambda>m. message_time fromiso m = t) (all_messages out)
      = filter (\<lambda>m. message_time fromiso m = t) (messages_in_file_order mid pfs)" for t
    using sort_by_datetime_stable [OF srt, of t] by (simp only: input)
  have c: "mset (all_messages out) = mset (messages_in_file_order mid pfs)"
    using sort_by_datetime_mset [OF srt] by (simp only: input)
  show ?thesis
    using pfs a b c by blast
qed

text \<open>
  Witness for C2: the two example files. The two messages without a usable timestamp
  come first, the one of file A before the one of file B; the others follow by time,
  alternating between the files.
\<close>

theorem merged_messages_sorted_stable_witness:
  "sorted_wrt
     (\<lambda>a b. datetime_le (message_time fromisoformat_basic a) (message_time fromisoformat_basic b)
              = Some True)
     (all_messages merged_ab) \<and>
   map (\<lambda>m. dict_get m ''content'') (all_messages merged_ab)
     = [Some (JStr ''a2''), Some (JStr ''b1''), Some (JStr ''a1''), Some (JStr ''b2''),
        Some (JStr ''a3'')] \<and>
   filter (\<lambda>m. message_time fromisoformat_basic m = datetime_min_utc) (all_messages merged_ab)
     = filter (\<lambda>m. message_time fromisoformat_basic m = datetime_min_utc)
         (messages_in_file_order ''merged-1'' [file_a, file_b])"
proof -
  from merged_messages_sorted_stable [OF merge_sessions_example] obtain pfs
    where pfs: "find_session_files fromisoformat_basic [file_b, file_a] = Inr pfs"
      and a: "sorted_wrt
         (\<lambda>a b. datetime_le (message_time fromisoformat_basic a)
                    (message_time fromisoformat_basic b) = Some True)
         (all_messages merged_ab)"
      and b: "\<forall>t. filter (\<lambda>m. message_time fromisoformat_basic m = t) (all_messages merged_ab)
           = filter (\<lambda>m. message_time fromisoformat_basic m = t)
               (messages_in_file_order ''merged-1'' pfs)"
    by blast
  have "pfs = [file_a, file_b]"
    using pfs find_session_files_example by simp
  moreover have "map (\<lambda>m. dict_get m ''content'') (all_messages merged_ab)
     = [Some (JStr ''a2''), Some (JStr ''b1''), Some (JStr ''a1''), Some (JStr ''b2''),
        Some (JStr ''a3'')]"
    by code_simp
  ultimately show ?thesis
    using a b by blast
qed

text \<open>
  Claim C6, as amended. The files are put in the order of their start times, and the
  timestamp of the merged end record is the timestamp of the last \<^verbatim>\<open>session_end\<close>
  event of the file that is last in that order; when that file has no such event, or the
  event has no timestamp, it is the current time. No other end event is looked at.
\<close>

theorem merged_end_timestamp_of_last_session:
  assumes "merge_sessions fromiso now mid files = Inr (Some out)"
  shows "\<exists>pfs. find_session_files fromiso files = Inr pfs \<and> 2 \<le> length pfs \<and>
     mset pfs = mset files \<and>
     sorted_wrt (\<lambda>f g. datetime_le (get_start_time fromiso f) (get_start_time fromiso g)
                          = Some True) pfs \<and>
     dict_get (merged_end out) ''timestamp''
       = Some (case last_event ''session_end'' (last pfs) of
                 None \<Rightarrow> JStr (now 2)
               | Some ev \<Rightarrow> dict_get_default ev ''timestamp'' (JStr (now 2)))"
proof -
  from merge_sessions_Some [OF assms] obtain pfs sds
    where pfs: "find_session_files fromiso files = Inr pfs"
      and len: "2 \<le> length pfs"
      and sds: "extract_all pfs = Inr sds"
      and ts: "dict_get (merged_end out) ''timestamp''
                 = Some (dict_get_default (or_empty (session_end (last sds))) ''timestamp''
                           (JStr (now 2)))"
    by blast
  have srt: "sort_by_datetime (get_start_time fromiso) files = Inr pfs"
    using pfs by (simp add: find_session_files_def)
  have ends: "map session_end sds = map (last_event ''session_end'') pfs"
    using extract_all_fields [OF sds] by simp
  have ne: "pfs \<noteq> []"
    using len by auto
  then have "sds \<noteq> []"
    using ends by (metis map_is_Nil_conv)
  then have "session_end (last sds) = last (map session_end sds)"
    by (simp add: last_map)
  also have "\<dots> = last_event ''session_end'' (last pfs)"
    using ne by (simp add: ends last_map)
  finally have e: "session_end (last sds) = last_event ''session_end'' (last pfs)" .
  have "dict_get (merged_end out) ''timestamp''
       = Some (case last_event ''session_end'' (last pfs) of
                 None \<Rightarrow> JStr (now 2)
               | Some ev \<Rightarrow> dict_get_default ev ''timestamp'' (JStr (now 2)))"
    unfolding ts e
    by (cases "last_event ''session_end'' (last pfs)")
       (simp_all add: or_empty_def dict_get_default_def)
  then show ?thesis
    using pfs len sort_by_datetime_mset [OF srt] sort_by_datetime_sorted [OF srt]
    by blast
qed

text \<open>
  Witness for C6, as amended: file A starts first, so file B is the last file, and the
  merged end record carries the timestamp of the end of session B.
\<close>

theorem merged_end_timestamp_of_last_session_witness:
  "dict_get (merged_end merged_ab) ''timestamp'' = Some (JStr ''2025-03-01T10:30:00+00:00'')"
proof -
  from merged_end_timestamp_of_last_session [OF merge_sessions_example] obtain pfs
    where pfs: "find_session_files fromisoformat_basic [file_b, file_a] = Inr pfs"
      and ts: "dict_get (merged_end merged_ab) ''timestamp''
       = Some (case last_event ''session_end'' (last pfs) of
                 None \<Rightarrow> JStr (clock 2)
               | Some ev \<Rightarrow> dict_get_default ev ''timestamp'' (JStr (clock 2)))"
    by blast
  have "pfs = [file_a, file_b]"
    using pfs find_session_files_example by simp
  then have l: "last pfs = file_b"
    by simp
  have "(case last_event ''session_end'' file_b of
           None \<Rightarrow> JStr (clock 2)
         | Some ev \<Rightarrow> dict_get_default ev ''timestamp'' (JStr (clock 2)))
        = JStr ''2025-03-01T10:30:00+00:00''"
    by code_simp
  then show ?thesis
    using ts l by simp
qed

text \<open>
  Counterexample to C6 as it was stated (the merged end record carries the latest end
  timestamp of all sessions): session A ends at 12:00, after session B, which started
  later and ended at 10:30. The merged end record says 10:30.
\<close>

theorem merged_end_is_not_latest_end:
  "merged_end_timestamp
     (merge_sessions fromisoformat_basic clock ''merged-1'' [file_b, file_a])
     = Some (JStr ''2025-03-01T10:30:00+00:00'') \<and>
   last_event ''session_end'' file_a
     = Some [(''type'', JStr ''session_end''),
             (''timestamp'', JStr ''2025-03-01T12:00:00+00:00''),
             (''session_id'', JStr ''sess-a''), (''cwd'', JStr ''/work/a'')] \<and>
   datetime_le (parse_timestamp fromisoformat_basic (JStr ''2025-03-01T10:30:00+00:00''))
     (parse_timestamp fromisoformat_basic (JStr ''2025-03-01T12:00:00+00:00'')) = Some True \<and>
   parse_timestamp fromisoformat_basic (JStr ''2025-03-01T10:30:00+00:00'')
     \<noteq> parse_timestamp fromisoformat_basic (JStr ''2025-03-01T12:00:00+00:00'')"
  by code_simp

text \<open>
  Claim C7, as amended. Every message of a merged log is the copy of a message event of
  one of the input files with two fields set: \<^verbatim>\<open>session_id\<close> is the new merged
  identifier, and \<^verbatim>\<open>original_session_id\<close> is the \<^verbatim>\<open>session_id\<close> that the message
  itself carried in its file, or \<^verbatim>\<open>unknown\<close> when it carried none.
\<close>

theorem merged_message_identifiers:
  assumes "merge_sessions fromiso now mid files = Inr (Some out)"
    and "m \<in> set (all_messages out)"
  shows "dict_get m ''session_id'' = Some (JStr mid) \<and>
     (\<exists>f \<in> set files. \<exists>msg \<in> set (file_messages f).
        m = tag_message mid msg \<and>
        dict_get m ''original_session_id''
          = Some (dict_get_default msg ''session_id'' (JStr ''unknown'')))"
proof -
  from merge_sessions_Some [OF assms(1)] obtain pfs sds
    where pfs: "find_session_files fromiso files = Inr pfs"
      and sds: "extract_all pfs = Inr sds"
      and srt: "sort_by_datetime (message_time fromiso) (collect_messages mid sds)
                  = Inr (all_messages out)"
    by blast
  have "sort_by_datetime (get_start_time fromiso) files = Inr pfs"
    using pfs by (simp add: find_session_files_def)
  then have "mset pfs = mset files"
    by (rule sort_by_datetime_mset)
  then have files: "set pfs = set files"
    by (rule mset_eq_setD)
  have "mset (all_messages out) = mset (collect_messages mid sds)"
    by (rule sort_by_datetime_mset [OF srt])
  then have "set (all_messages out) = set (collect_messages mid sds)"
    by (rule mset_eq_setD)
  then have "m \<in> set (messages_in_file_order mid pfs)"
    using assms(2) collect_messages_files [OF sds] by simp
  then obtain f msg where f: "f \<in> set pfs" and msg: "msg \<in> set (file_messages f)"
    and m: "m = tag_message mid msg"
    by (auto simp: messages_in_file_order_def)
  show ?thesis
    using f msg files unfolding m by (auto simp: tag_message_ids)
qed

text \<open>
  Witness for C7, as amended: the third message of the merged example comes from file A
  and carried the identifier of session A.
\<close>

theorem merged_message_identifiers_witness:
  "dict_get (all_messages merged_ab ! 2) ''session_id'' = Some (JStr ''merged-1'') \<and>
   dict_get (all_messages merged_ab ! 2) ''original_session_id'' = Some (JStr ''sess-a'')"
proof -
  have mem: "all_messages merged_ab ! 2 \<in> set (all_messages merged_ab)"
    by (simp add: merged_ab_def)
  have "dict_get (all_messages merged_ab ! 2) ''original_session_id'' = Some (JStr ''sess-a'')"
    by code_simp
  then show ?thesis
    using merged_message_identifiers [OF merge_sessions_example mem] by simp
qed

text \<open>
  Counterexample to C7 as it was stated (\<^verbatim>\<open>original_session_id\<close> is the session
  identifier of the source file): the second message of file B, whose session is
  \<^verbatim>\<open>sess-b\<close>, carries no \<^verbatim>\<open>session_id\<close>; in the merged log it is the fourth message,
  and its \<^verbatim>\<open>original_session_id\<close> is \<^verbatim>\<open>unknown\<close>.
\<close>

theorem original_session_id_unknown:
  "merge_sessions fromisoformat_basic clock ''merged-1'' [file_b, file_a] = Inr (Some merged_ab) \<and>
   all_messages merged_ab ! 3 = tag_message ''merged-1'' (file_messages file_b ! 1) \<and>
   dict_get (all_messages merged_ab ! 3) ''original_session_id'' = Some (JStr ''unknown'') \<and>
   last_event ''session_start'' file_b
     = Some [(''type'', JStr ''session_start''),
             (''timestamp'', JStr ''2025-03-01T10:00:00+00:00''),
             (''session_id'', JStr ''sess-b''), (''cwd'', JStr ''/work/b'')]"
  by code_simp

section \<open>Properties of the aggregator\<close>





















end
